theory Spec2Isabelle
  imports Complex_Main
begin

section \<open>Data model\<close>

text \<open>
  The course/gate editing model of \<^verbatim>\<open>createState\<close>, \<^verbatim>\<open>methods\<close> and
  \<^verbatim>\<open>computedConfig\<close>. JavaScript numbers used as coordinates and distances are
  idealised as reals (no property below depends on their arithmetic); \<^verbatim>\<open>pairId\<close> is an
  integer; a string-valued property that may be \<^verbatim>\<open>undefined\<close> is a \<open>string option\<close>.
\<close>

datatype gate_type = Start | End

record latlon =
  lat :: real
  lon :: real

text \<open>A gate of \<^verbatim>\<open>timeGates\<close>:
  \<^verbatim>\<open>{id, pairId, name, type:'start'|'end', lat, lon, confirmed, editing}\<close>.\<close>

record gate = latlon +
  gate_id :: string
  pairId :: int
  name :: "string option"
  gtype :: gate_type
  confirmed :: bool
  editing :: bool

text \<open>An entry of the \<^verbatim>\<open>groups\<close> map built by \<^verbatim>\<open>gatePairs\<close>.\<close>

record gate_pair =
  pair_pairId :: int
  pair_name :: string
  pair_start :: "gate option"
  pair_end :: "gate option"
  checkpoints :: "latlon list"
  pair_confirmed :: bool
  pair_editing :: bool

section \<open>Template literals\<close>

text \<open>The decimal text JavaScript gives an integer inside a template literal.\<close>

definition digit_char :: "nat \<Rightarrow> char" where
  "digit_char d = ''0123456789'' ! d"

fun show_nat :: "nat \<Rightarrow> string" where
  "show_nat n = (if n < 10 then [digit_char n] else show_nat (n div 10) @ [digit_char (n mod 10)])"

declare show_nat.simps [simp del]

definition show_int :: "int \<Rightarrow> string" where
  "show_int i = (if i < 0 then ''-'' @ show_nat (nat (- i)) else show_nat (nat i))"

definition default_pair_name :: "int \<Rightarrow> string" where
  "default_pair_name pid = ''Gate Pair '' @ show_int pid"

section \<open>The aggregator: \<^verbatim>\<open>gatePairs\<close>\<close>

text \<open>\<^verbatim>\<open>a || b\<close> for a possibly undefined string \<open>a\<close>: the empty string and
  \<^verbatim>\<open>undefined\<close> are falsy.\<close>

definition js_or :: "string option \<Rightarrow> string \<Rightarrow> string" where
  "js_or a b = (case a of None \<Rightarrow> b | Some s \<Rightarrow> if s = [] then b else s)"

text \<open>\<^verbatim>\<open>pairNames.get(k)\<close>: a missing key and a stored \<^verbatim>\<open>undefined\<close> read the same.\<close>

definition names_get :: "(int \<rightharpoonup> string option) \<Rightarrow> int \<Rightarrow> string option" where
  "names_get names k = (case names k of None \<Rightarrow> None | Some v \<Rightarrow> v)"

text \<open>\<^verbatim>\<open>pairCheckpoints.get(k) || []\<close>.\<close>

definition cps_get :: "(int \<rightharpoonup> latlon list) \<Rightarrow> int \<Rightarrow> latlon list" where
  "cps_get cps k = (case cps k of None \<Rightarrow> [] | Some c \<Rightarrow> c)"

text \<open>\<^verbatim>\<open>entry.start?.confirmed\<close> and \<^verbatim>\<open>entry.start?.editing\<close> as truth values.\<close>

definition opt_confirmed :: "gate option \<Rightarrow> bool" where
  "opt_confirmed g = (case g of None \<Rightarrow> False | Some x \<Rightarrow> confirmed x)"

definition opt_editing :: "gate option \<Rightarrow> bool" where
  "opt_editing g = (case g of None \<Rightarrow> False | Some x \<Rightarrow> editing x)"

text \<open>The object stored by \<^verbatim>\<open>groups.set\<close> when a \<^verbatim>\<open>pairId\<close> is first seen.\<close>

definition new_entry :: "(int \<rightharpoonup> string option) \<Rightarrow> (int \<rightharpoonup> latlon list) \<Rightarrow> gate \<Rightarrow> gate_pair" where
  "new_entry names cps g =
     \<lparr> pair_pairId = pairId g,
       pair_name = js_or (names_get names (pairId g)) (js_or (name g) (default_pair_name (pairId g))),
       pair_start = None,
       pair_end = None,
       checkpoints = cps_get cps (pairId g),
       pair_confirmed = False,
       pair_editing = False \<rparr>"

text \<open>The rest of the loop body: the assignments to the entry, in the source's order.\<close>

definition absorb_gate :: "(int \<rightharpoonup> string option) \<Rightarrow> (int \<rightharpoonup> latlon list) \<Rightarrow> gate \<Rightarrow> gate_pair \<Rightarrow> gate_pair" where
  "absorb_gate names cps g e =
     (let e1 = (case gtype g of Start \<Rightarrow> e\<lparr>pair_start := Some g\<rparr> | End \<Rightarrow> e\<lparr>pair_end := Some g\<rparr>);
          e2 = e1\<lparr>pair_name := js_or (names_get names (pairId g)) (js_or (name g) (pair_name e1))\<rparr>;
          e3 = e2\<lparr>pair_confirmed := (opt_confirmed (pair_start e2) \<and> opt_confirmed (pair_end e2))\<rparr>;
          e4 = e3\<lparr>pair_editing := (opt_editing (pair_start e3) \<or> opt_editing (pair_end e3))\<rparr>
      in e4\<lparr>checkpoints := cps_get cps (pairId g)\<rparr>)"

text \<open>The \<^verbatim>\<open>groups\<close> map keeps insertion order (\<^verbatim>\<open>Array.from(groups.values())\<close>), so
  it is an association list with one entry per key.\<close>

type_synonym groups = "(int \<times> gate_pair) list"

definition groups_has :: "groups \<Rightarrow> int \<Rightarrow> bool" where
  "groups_has G k = (k \<in> set (map fst G))"

fun groups_modify :: "int \<Rightarrow> (gate_pair \<Rightarrow> gate_pair) \<Rightarrow> groups \<Rightarrow> groups" where
  "groups_modify k f [] = []"
| "groups_modify k f ((k', e) # G) =
     (if k' = k then (k', f e) # G else (k', e) # groups_modify k f G)"

definition gate_step :: "(int \<rightharpoonup> string option) \<Rightarrow> (int \<rightharpoonup> latlon list) \<Rightarrow> groups \<Rightarrow> gate \<Rightarrow> groups" where
  "gate_step names cps G g =
     (let G1 = (if \<not> groups_has G (pairId g) then G @ [(pairId g, new_entry names cps g)] else G)
      in groups_modify (pairId g) (absorb_gate names cps g) G1)"

definition build_groups :: "(int \<rightharpoonup> string option) \<Rightarrow> (int \<rightharpoonup> latlon list) \<Rightarrow> gate list \<Rightarrow> groups" where
  "build_groups names cps gates = foldl (gate_step names cps) [] gates"

definition gatePairs_of :: "(int \<rightharpoonup> string option) \<Rightarrow> (int \<rightharpoonup> latlon list) \<Rightarrow> gate list \<Rightarrow> gate_pair list" where
  "gatePairs_of names cps gates =
     filter (\<lambda>p. pair_start p \<noteq> None \<and> pair_end p \<noteq> None) (map snd (build_groups names cps gates))"

section \<open>Tracks, courses and the remote services\<close>

record point = latlon +
  ele :: "real option"
  time :: "string option"

text \<open>A track \<^verbatim>\<open>{id, name, points, color}\<close>; \<^verbatim>\<open>segmentTimes\<close> is absent until the first
  recomputation writes it. The segments are opaque values of the geometry service.\<close>

record 'seg track =
  track_id :: string
  track_name :: string
  points :: "point list"
  color :: string
  segmentTimes :: "'seg list option"

text \<open>One element of the \<^verbatim>\<open>gates\<close> array sent to \<^verbatim>\<open>POST /segment-times\<close>.\<close>

record api_gate =
  api_pairId :: int
  api_name :: string
  api_start :: latlon
  api_end :: latlon
  api_checkpoints :: "latlon list"

text \<open>One element of \<^verbatim>\<open>c.gates\<close> in the payload of \<^verbatim>\<open>GET /courses/{id}\<close>; the name may
  be missing and \<^verbatim>\<open>checkpoints\<close> may be no array.\<close>

record course_gate =
  cg_pairId :: int
  cg_name :: "string option"
  cg_start :: latlon
  cg_end :: latlon
  cg_checkpoints :: "latlon list option"

record course =
  course_gates :: "course_gate list"
  buffer_m :: real

record segment_request =
  req_points :: "point list"
  req_gates :: "api_gate list"
  req_buffer_m :: real

datatype api_error = ApiError string

text \<open>
  The network, as the methods see it through \<^verbatim>\<open>apiGet\<close> and \<^verbatim>\<open>apiPost\<close>: a call
  either throws (a rejected fetch or a non-success status, \<open>Inl\<close>) or returns the parsed
  body. The answer to a segment-times request may depend on the request and on how many
  requests the run has issued before it. A body may lack its \<^verbatim>\<open>segments\<close> or
  \<^verbatim>\<open>entries\<close> property (\<open>None\<close>).
\<close>

record ('seg, 'lb) network =
  get_course :: "int \<Rightarrow> api_error + course"
  get_leaderboard :: "int \<Rightarrow> api_error + 'lb list option"
  post_segment_times :: "nat \<Rightarrow> segment_request \<Rightarrow> api_error + 'seg list option"

text \<open>The fields of \<^verbatim>\<open>createState\<close> that the course, gate and track methods read or write.
  The Leaflet layers are left out: the redraw methods write nothing else.\<close>

record ('seg, 'lb) app_state =
  selectedTrackIds :: "string list"
  tracks :: "'seg track list"
  timeGates :: "gate list"
  pairCheckpoints :: "int \<rightharpoonup> latlon list"
  pairNames :: "int \<rightharpoonup> string option"
  bufferMeters :: real
  isCreatingCourse :: bool
  selectedCourseId :: "int option"
  selectedCourse :: "course option"
  leaderboard :: "'lb list"

definition gatePairs :: "('seg, 'lb) app_state \<Rightarrow> gate_pair list" where
  "gatePairs s = gatePairs_of (pairNames s) (pairCheckpoints s) (timeGates s)"

section \<open>\<^verbatim>\<open>gatePairsToApiPayload\<close>\<close>

text \<open>The mapped object of one pair. Reading \<^verbatim>\<open>p.start.lat\<close> of a null start would throw;
  that is the \<open>None\<close> here, which the filter in front of the map rules out
  (lemma \<open>payload_keeps_all\<close>).\<close>

definition api_of_pair :: "gate_pair \<Rightarrow> api_gate option" where
  "api_of_pair p =
     (case pair_start p of None \<Rightarrow> None
      | Some a \<Rightarrow>
        (case pair_end p of None \<Rightarrow> None
         | Some b \<Rightarrow>
           Some \<lparr> api_pairId = pair_pairId p,
                  api_name = (if pair_name p = [] then default_pair_name (pair_pairId p) else pair_name p),
                  api_start = \<lparr> lat = lat a, lon = lon a \<rparr>,
                  api_end = \<lparr> lat = lat b, lon = lon b \<rparr>,
                  api_checkpoints = map (\<lambda>c. \<lparr> lat = lat c, lon = lon c \<rparr>) (checkpoints p) \<rparr>))"

definition payload_filter :: "gate_pair \<Rightarrow> bool" where
  "payload_filter p = (pair_start p \<noteq> None \<and> pair_end p \<noteq> None \<and> pair_confirmed p)"

definition payload_of_pairs :: "gate_pair list \<Rightarrow> api_gate list" where
  "payload_of_pairs ps = List.map_filter api_of_pair (filter payload_filter ps)"

definition gatePairsToApiPayload :: "('seg, 'lb) app_state \<Rightarrow> api_gate list" where
  "gatePairsToApiPayload s = payload_of_pairs (gatePairs s)"

section \<open>\<^verbatim>\<open>recalcAllSegmentTimes\<close>\<close>

definition request_of :: "api_gate list \<Rightarrow> real \<Rightarrow> 'seg track \<Rightarrow> segment_request" where
  "request_of gates buf t =
     \<lparr> req_points = map (\<lambda>p. \<lparr> lat = lat p, lon = lon p, ele = ele p, time = time p \<rparr>) (points t),
       req_gates = gates,
       req_buffer_m = buf \<rparr>"

text \<open>The body of the \<^verbatim>\<open>try\<close>/\<^verbatim>\<open>catch\<close> for one track.\<close>

definition store_result :: "(api_error + 'seg list option) \<Rightarrow> 'seg track \<Rightarrow> 'seg track" where
  "store_result r t =
     (case r of
        Inr data \<Rightarrow> t\<lparr>segmentTimes := Some (case data of Some segs \<Rightarrow> segs | None \<Rightarrow> [])\<rparr>
      | Inl e \<Rightarrow> t\<lparr>segmentTimes := Some []\<rparr>)"

text \<open>The \<^verbatim>\<open>for (const t of this.tracks)\<close> loop: \<open>k\<close> counts the requests issued so far;
  the result is the updated tracks and the requests issued, in order.\<close>

fun recalc_tracks ::
  "(nat \<Rightarrow> segment_request \<Rightarrow> api_error + 'seg list option) \<Rightarrow> api_gate list \<Rightarrow> real \<Rightarrow> nat \<Rightarrow>
   'seg track list \<Rightarrow> 'seg track list \<times> segment_request list" where
  "recalc_tracks post gates buf k [] = ([], [])"
| "recalc_tracks post gates buf k (t # ts) =
     (if points t = [] then
        (case recalc_tracks post gates buf k ts of
           (ts', reqs) \<Rightarrow> (t\<lparr>segmentTimes := Some []\<rparr> # ts', reqs))
      else
        (case recalc_tracks post gates buf (Suc k) ts of
           (ts', reqs) \<Rightarrow>
             (store_result (post k (request_of gates buf t)) t # ts', request_of gates buf t # reqs)))"

definition recalcAllSegmentTimes ::
  "('seg, 'lb) network \<Rightarrow> ('seg, 'lb) app_state \<Rightarrow> ('seg, 'lb) app_state \<times> segment_request list" where
  "recalcAllSegmentTimes net s =
     (if tracks s = [] then (s, [])
      else
        (let gates = gatePairsToApiPayload s in
         if gates = [] then (s\<lparr>tracks := map (\<lambda>t. t\<lparr>segmentTimes := Some []\<rparr>) (tracks s)\<rparr>, [])
         else
           (let buffer = (if bufferMeters s = 0 then 10 else bufferMeters s) in
            case recalc_tracks (post_segment_times net) gates buffer 0 (tracks s) of
              (ts', reqs) \<Rightarrow> (s\<lparr>tracks := ts'\<rparr>, reqs))))"

section \<open>Course and gate methods\<close>

text \<open>\<^verbatim>\<open>!this.selectedCourseId\<close>: null and 0 are falsy.\<close>

definition course_id_falsy :: "int option \<Rightarrow> bool" where
  "course_id_falsy c = (case c of None \<Rightarrow> True | Some i \<Rightarrow> i = 0)"

definition fetchLeaderboard :: "('seg, 'lb) network \<Rightarrow> ('seg, 'lb) app_state \<Rightarrow> ('seg, 'lb) app_state" where
  "fetchLeaderboard net s =
     (case selectedCourseId s of
        None \<Rightarrow> s\<lparr>leaderboard := []\<rparr>
      | Some cid \<Rightarrow>
          if cid = 0 then s\<lparr>leaderboard := []\<rparr>
          else (case get_leaderboard net cid of
                  Inr data \<Rightarrow> s\<lparr>leaderboard := (case data of Some es \<Rightarrow> es | None \<Rightarrow> [])\<rparr>
                | Inl e \<Rightarrow> s\<lparr>leaderboard := []\<rparr>))"

definition startNewCourse :: "('seg, 'lb) app_state \<Rightarrow> ('seg, 'lb) app_state" where
  "startNewCourse s =
     s\<lparr> selectedCourseId := None, selectedCourse := None, timeGates := [],
        pairCheckpoints := Map.empty, pairNames := Map.empty, leaderboard := [],
        bufferMeters := 10, isCreatingCourse := True \<rparr>"

text \<open>The two gate objects pushed for one element of \<^verbatim>\<open>c.gates\<close>.\<close>

definition course_start_gate :: "course_gate \<Rightarrow> gate" where
  "course_start_gate g =
     \<lparr> lat = lat (cg_start g), lon = lon (cg_start g),
       gate_id = show_int (cg_pairId g) @ ''_S'', pairId = cg_pairId g, name = cg_name g,
       gtype = Start, confirmed = True, editing = False \<rparr>"

definition course_end_gate :: "course_gate \<Rightarrow> gate" where
  "course_end_gate g =
     \<lparr> lat = lat (cg_end g), lon = lon (cg_end g),
       gate_id = show_int (cg_pairId g) @ ''_E'', pairId = cg_pairId g, name = cg_name g,
       gtype = End, confirmed = True, editing = False \<rparr>"

text \<open>The body of the loop over \<^verbatim>\<open>c.gates\<close>: two \<^verbatim>\<open>push\<close>es, the guarded
  \<^verbatim>\<open>pairCheckpoints.set\<close> and the \<^verbatim>\<open>pairNames.set\<close>.\<close>

definition load_gate :: "('seg, 'lb) app_state \<Rightarrow> course_gate \<Rightarrow> ('seg, 'lb) app_state" where
  "load_gate s g =
     (let s1 = s\<lparr>timeGates := timeGates s @ [course_start_gate g]\<rparr>;
          s2 = s1\<lparr>timeGates := timeGates s1 @ [course_end_gate g]\<rparr>;
          s3 = (case cg_checkpoints g of
                  Some cps \<Rightarrow> s2\<lparr>pairCheckpoints := (pairCheckpoints s2)
                                 (cg_pairId g \<mapsto> map (\<lambda>cp. \<lparr> lat = lat cp, lon = lon cp \<rparr>) cps)\<rparr>
                | None \<Rightarrow> s2)
      in s3\<lparr>pairNames := (pairNames s3)(cg_pairId g \<mapsto> cg_name g)\<rparr>)"

text \<open>\<^verbatim>\<open>loadSelectedCourse\<close>, run to completion. A failed fetch is caught and only alerts.\<close>

definition loadSelectedCourse ::
  "('seg, 'lb) network \<Rightarrow> ('seg, 'lb) app_state \<Rightarrow> ('seg, 'lb) app_state \<times> segment_request list" where
  "loadSelectedCourse net s =
     (case selectedCourseId s of
        None \<Rightarrow> (s, [])
      | Some cid \<Rightarrow>
          if cid = 0 then (s, [])
          else (case get_course net cid of
                  Inl e \<Rightarrow> (s, [])
                | Inr c \<Rightarrow>
                    (let s1 = s\<lparr>selectedCourse := Some c, isCreatingCourse := False\<rparr>;
                         s2 = s1\<lparr>timeGates := [], pairCheckpoints := Map.empty, pairNames := Map.empty\<rparr>;
                         s3 = foldl load_gate s2 (course_gates c);
                         s4 = s3\<lparr>bufferMeters := buffer_m c\<rparr>;
                         s5 = fetchLeaderboard net s4
                     in recalcAllSegmentTimes net s5)))"

text \<open>\<^verbatim>\<open>nextPairId\<close>: \<^verbatim>\<open>let i = 1; while (used.has(i)) i += 1; return i\<close>.\<close>

function next_from :: "int \<Rightarrow> int list \<Rightarrow> int" where
  "next_from i used = (if i \<in> set used then next_from (i + 1) used else i)"
  by pat_completeness auto
termination
proof (relation "measure (\<lambda>(i, used). card (set used \<inter> {i..}))")
  show "wf (measure (\<lambda>(i, used). card (set used \<inter> {i..})))" by simp
next
  fix i :: int and used :: "int list"
  assume mem: "i \<in> set used"
  have "i \<in> set used \<inter> {i..}" and "i \<notin> set used \<inter> {i + 1..}"
    using mem by simp_all
  moreover have "set used \<inter> {i + 1..} \<subseteq> set used \<inter> {i..}"
    by auto
  ultimately have "set used \<inter> {i + 1..} \<subset> set used \<inter> {i..}"
    by blast
  then have "card (set used \<inter> {i + 1..}) < card (set used \<inter> {i..})"
    by (intro psubset_card_mono) auto
  then show "((i + 1, used), (i, used)) \<in> measure (\<lambda>(i, used). card (set used \<inter> {i..}))"
    by simp
qed

declare next_from.simps [simp del]

definition nextPairId :: "('seg, 'lb) app_state \<Rightarrow> int" where
  "nextPairId s = next_from 1 (map pairId (timeGates s))"

text \<open>\<^verbatim>\<open>addGatePair\<close>; the map centre and the two readings of \<^verbatim>\<open>Date.now()\<close> are inputs.\<close>

definition addGatePair :: "latlon \<Rightarrow> int \<Rightarrow> int \<Rightarrow> ('seg, 'lb) app_state \<Rightarrow> ('seg, 'lb) app_state" where
  "addGatePair c now_s now_e s =
     (let offset = 1 / 1000;
          next = nextPairId s;
          start = \<lparr> lat = lat c + offset, lon = lon c + offset,
                    gate_id = show_int now_s @ ''_S'', pairId = next,
                    name = Some (default_pair_name next), gtype = Start,
                    confirmed = False, editing = True \<rparr>;
          end_gate = \<lparr> lat = lat c - offset, lon = lon c - offset,
                    gate_id = show_int now_e @ ''_E'', pairId = next,
                    name = Some (default_pair_name next), gtype = End,
                    confirmed = False, editing = True \<rparr>
      in s\<lparr>timeGates := timeGates s @ [start, end_gate]\<rparr>)"

text \<open>The callback of \<^verbatim>\<open>startEditing\<close>'s \<^verbatim>\<open>forEach\<close>, both statements.\<close>

definition edit_gate :: "int \<Rightarrow> gate \<Rightarrow> gate" where
  "edit_gate pid g =
     (let g1 = g\<lparr>editing := (pairId g = pid)\<rparr>
      in if pairId g1 \<noteq> pid \<and> \<not> confirmed g1 then g1\<lparr>confirmed := False\<rparr> else g1)"

definition startEditing :: "int \<Rightarrow> ('seg, 'lb) app_state \<Rightarrow> ('seg, 'lb) app_state" where
  "startEditing pid s = s\<lparr>timeGates := map (edit_gate pid) (timeGates s)\<rparr>"

text \<open>\<^verbatim>\<open>pair?.name || `Gate Pair ${pairId}`\<close> for the pair found in \<^verbatim>\<open>gatePairs\<close>.\<close>

definition saved_name :: "('seg, 'lb) app_state \<Rightarrow> int \<Rightarrow> string" where
  "saved_name s pid =
     (case find (\<lambda>p. pair_pairId p = pid) (gatePairs s) of
        None \<Rightarrow> default_pair_name pid
      | Some p \<Rightarrow> if pair_name p = [] then default_pair_name pid else pair_name p)"

text \<open>The callback of the \<^verbatim>\<open>map\<close> in \<^verbatim>\<open>saveAndConfirmGate\<close>.\<close>

definition confirm_gate :: "int \<Rightarrow> string \<Rightarrow> gate \<Rightarrow> gate" where
  "confirm_gate pid newName g =
     (if pairId g \<noteq> pid then g else g\<lparr>name := Some newName, confirmed := True, editing := False\<rparr>)"

text \<open>\<^verbatim>\<open>saveAndConfirmGate\<close>; the two asynchronous calls at its end write disjoint fields
  (the tracks and the leaderboard) and are run to completion one after the other.\<close>

definition saveAndConfirmGate ::
  "('seg, 'lb) network \<Rightarrow> int \<Rightarrow> ('seg, 'lb) app_state \<Rightarrow> ('seg, 'lb) app_state \<times> segment_request list" where
  "saveAndConfirmGate net pid s =
     (let newName = saved_name s pid;
          s1 = s\<lparr>pairNames := (pairNames s)(pid \<mapsto> Some newName)\<rparr>;
          s2 = s1\<lparr>timeGates := map (confirm_gate pid newName) (timeGates s1)\<rparr>
      in case recalcAllSegmentTimes net s2 of (s3, reqs) \<Rightarrow> (fetchLeaderboard net s3, reqs))"

definition removeGatePair ::
  "('seg, 'lb) network \<Rightarrow> int \<Rightarrow> ('seg, 'lb) app_state \<Rightarrow> ('seg, 'lb) app_state \<times> segment_request list" where
  "removeGatePair net pid s =
     (let s1 = s\<lparr>timeGates := filter (\<lambda>g. pairId g \<noteq> pid) (timeGates s)\<rparr>;
          s2 = s1\<lparr>pairCheckpoints := (pairCheckpoints s1)(pid := None)\<rparr>;
          s3 = s2\<lparr>pairNames := (pairNames s2)(pid := None)\<rparr>
      in recalcAllSegmentTimes net s3)"

section \<open>Track selection\<close>

text \<open>\<^verbatim>\<open>Array.prototype.indexOf\<close>: the first index of the value, or -1.\<close>

fun indexOf :: "'a list \<Rightarrow> 'a \<Rightarrow> int" where
  "indexOf [] x = - 1"
| "indexOf (y # ys) x = (if y = x then 0 else (let i = indexOf ys x in if i < 0 then - 1 else i + 1))"

text \<open>\<^verbatim>\<open>xs.splice(i, 1)\<close> for an index \<open>i \<ge> 0\<close>.\<close>

definition splice1 :: "nat \<Rightarrow> 'a list \<Rightarrow> 'a list" where
  "splice1 i xs = take i xs @ drop (Suc i) xs"

definition toggleTrack :: "string \<Rightarrow> ('seg, 'lb) app_state \<Rightarrow> ('seg, 'lb) app_state" where
  "toggleTrack trackId s =
     (let i = indexOf (selectedTrackIds s) trackId
      in if i \<ge> 0 then s\<lparr>selectedTrackIds := splice1 (nat i) (selectedTrackIds s)\<rparr>
         else s\<lparr>selectedTrackIds := selectedTrackIds s @ [trackId]\<rparr>)"

section \<open>The editing invariant\<close>

text \<open>The gates of at most one \<^verbatim>\<open>pairId\<close> have \<^verbatim>\<open>editing = true\<close>.\<close>

definition editing_ids :: "gate list \<Rightarrow> int list" where
  "editing_ids gs = remdups (map pairId (filter editing gs))"

definition at_most_one_editing :: "gate list \<Rightarrow> bool" where
  "at_most_one_editing gs = (length (editing_ids gs) \<le> 1)"

section \<open>A closed form of the aggregator\<close>

text \<open>
  Vocabulary for stating what \<^verbatim>\<open>gatePairs\<close> computes: the truthiness of a name, the last
  gate of a given pair and type in the flat list, the name carried by the last gate of a
  pair that has a truthy name, the pair ids in order of first occurrence, and the entry
  the loop leaves for a pair id.
\<close>

definition truthy :: "string option \<Rightarrow> bool" where
  "truthy a = (case a of None \<Rightarrow> False | Some s \<Rightarrow> s \<noteq> [])"

definition last_gate :: "int \<Rightarrow> gate_type \<Rightarrow> gate list \<Rightarrow> gate option" where
  "last_gate k ty gs = find (\<lambda>g. pairId g = k \<and> gtype g = ty) (rev gs)"

definition carried_name :: "int \<Rightarrow> gate list \<Rightarrow> string option" where
  "carried_name k gs =
     (case find (\<lambda>g. pairId g = k \<and> truthy (name g)) (rev gs) of None \<Rightarrow> None | Some g \<Rightarrow> name g)"

definition pair_ids :: "gate list \<Rightarrow> int list" where
  "pair_ids gs = rev (remdups (rev (map pairId gs)))"

definition entry_of :: "(int \<rightharpoonup> string option) \<Rightarrow> (int \<rightharpoonup> latlon list) \<Rightarrow> gate list \<Rightarrow> int \<Rightarrow> gate_pair" where
  "entry_of names cps gs k =
     \<lparr> pair_pairId = k,
       pair_name = js_or (names_get names k) (js_or (carried_name k gs) (default_pair_name k)),
       pair_start = last_gate k Start gs,
       pair_end = last_gate k End gs,
       checkpoints = cps_get cps k,
       pair_confirmed = (opt_confirmed (last_gate k Start gs) \<and> opt_confirmed (last_gate k End gs)),
       pair_editing = (opt_editing (last_gate k Start gs) \<or> opt_editing (last_gate k End gs)) \<rparr>"

section \<open>The initial state, requests and example data\<close>

text \<open>\<^verbatim>\<open>createState\<close>, on the modelled fields.\<close>

definition createState :: "('seg, 'lb) app_state" where
  "createState =
     \<lparr> selectedTrackIds = [], tracks = [], timeGates = [], pairCheckpoints = Map.empty,
       pairNames = Map.empty, bufferMeters = 10, isCreatingCourse = False,
       selectedCourseId = None, selectedCourse = None, leaderboard = [] \<rparr>"

text \<open>The request \<^verbatim>\<open>recalcAllSegmentTimes\<close> builds for a track in a given state.\<close>

definition track_request :: "('seg, 'lb) app_state \<Rightarrow> 'seg track \<Rightarrow> segment_request" where
  "track_request s t =
     request_of (gatePairsToApiPayload s) (if bufferMeters s = 0 then 10 else bufferMeters s) t"

text \<open>The number of requests \<^verbatim>\<open>recalcAllSegmentTimes\<close> has issued when it reaches the
  track at position \<open>i\<close>: one for each earlier track that has points.\<close>

definition request_index :: "'seg track list \<Rightarrow> nat \<Rightarrow> nat" where
  "request_index ts i = length (filter (\<lambda>t. points t \<noteq> []) (take i ts))"

text \<open>What \<^verbatim>\<open>toggleTrack\<close> does to the list of selected ids, in list terms.\<close>

definition toggle_ids :: "'a \<Rightarrow> 'a list \<Rightarrow> 'a list" where
  "toggle_ids x xs = (if x \<in> set xs then remove1 x xs else xs @ [x])"

text \<open>Builders for concrete gates, points, tracks, course payloads and networks.\<close>

definition mk_gate :: "int \<Rightarrow> gate_type \<Rightarrow> string option \<Rightarrow> bool \<Rightarrow> bool \<Rightarrow> gate" where
  "mk_gate pid ty nm c e =
     \<lparr> lat = 0, lon = 0, gate_id = [], pairId = pid, name = nm, gtype = ty, confirmed = c, editing = e \<rparr>"

definition mk_point :: "real \<Rightarrow> real \<Rightarrow> point" where
  "mk_point la lo = \<lparr> lat = la, lon = lo, ele = None, time = None \<rparr>"

definition mk_track :: "string \<Rightarrow> point list \<Rightarrow> 'seg list option \<Rightarrow> 'seg track" where
  "mk_track i ps st = \<lparr> track_id = i, track_name = i, points = ps, color = ''#ef4444'', segmentTimes = st \<rparr>"

definition mk_course_gate :: "int \<Rightarrow> string option \<Rightarrow> latlon list option \<Rightarrow> course_gate" where
  "mk_course_gate pid nm cps =
     \<lparr> cg_pairId = pid, cg_name = nm, cg_start = \<lparr> lat = 1, lon = 1 \<rparr>, cg_end = \<lparr> lat = 2, lon = 2 \<rparr>,
       cg_checkpoints = cps \<rparr>"

definition mk_network ::
  "(int \<Rightarrow> api_error + course) \<Rightarrow> (nat \<Rightarrow> segment_request \<Rightarrow> api_error + nat list option) \<Rightarrow> (nat, nat) network" where
  "mk_network gc post = \<lparr> get_course = gc, get_leaderboard = (\<lambda>i. Inl (ApiError ''offline'')),
     post_segment_times = post \<rparr>"

section \<open>What a course payload holds\<close>

text \<open>The flat gates, the names and the checkpoints that a course payload alone determines.\<close>

definition course_flat_gates :: "course \<Rightarrow> gate list" where
  "course_flat_gates c = concat (map (\<lambda>g. [course_start_gate g, course_end_gate g]) (course_gates c))"

definition course_names :: "course \<Rightarrow> (int \<rightharpoonup> string option)" where
  "course_names c = foldl (\<lambda>m g. m(cg_pairId g \<mapsto> cg_name g)) Map.empty (course_gates c)"

definition course_checkpoints :: "course \<Rightarrow> (int \<rightharpoonup> latlon list)" where
  "course_checkpoints c =
     foldl (\<lambda>m g. case cg_checkpoints g of
                     Some cps \<Rightarrow> m(cg_pairId g \<mapsto> map (\<lambda>cp. \<lparr> lat = lat cp, lon = lon cp \<rparr>) cps)
                   | None \<Rightarrow> m)
       Map.empty (course_gates c)"

section \<open>The aggregator computes its closed form\<close>

lemma truthy_None [simp]: "\<not> truthy None"
  by (simp add: truthy_def)

lemma js_or_truthy: "js_or a b = (if truthy a then the a else b)"
  by (auto simp: js_or_def truthy_def split: option.splits)

lemma pair_ids_snoc:
  "pair_ids (gs @ [g]) = (if pairId g \<in> set (pair_ids gs) then pair_ids gs else pair_ids gs @ [pairId g])"
  by (simp add: pair_ids_def)

lemma set_pair_ids: "set (pair_ids gs) = pairId ` set gs"
  by (simp add: pair_ids_def)

lemma distinct_pair_ids: "distinct (pair_ids gs)"
  by (simp add: pair_ids_def)

lemma last_gate_snoc:
  "last_gate k ty (gs @ [g]) = (if pairId g = k \<and> gtype g = ty then Some g else last_gate k ty gs)"
  by (simp add: last_gate_def)

lemma carried_name_snoc:
  "carried_name k (gs @ [g]) = (if pairId g = k \<and> truthy (name g) then name g else carried_name k gs)"
  by (simp add: carried_name_def)

lemma last_gate_unseen: "k \<notin> pairId ` set gs \<Longrightarrow> last_gate k ty gs = None"
  by (auto simp: last_gate_def find_None_iff)

lemma carried_name_unseen:
  assumes "k \<notin> pairId ` set gs"
  shows "carried_name k gs = None"
proof -
  have "find (\<lambda>g. pairId g = k \<and> truthy (name g)) (rev gs) = None"
    using assms by (auto simp: find_None_iff)
  then show ?thesis by (simp add: carried_name_def)
qed

lemma entry_of_other:
  "pairId g \<noteq> k \<Longrightarrow> entry_of names cps (gs @ [g]) k = entry_of names cps gs k"
  by (simp add: entry_of_def last_gate_snoc carried_name_snoc)

lemma entry_of_absorb:
  "entry_of names cps (gs @ [g]) (pairId g) = absorb_gate names cps g (entry_of names cps gs (pairId g))"
  by (cases "gtype g")
     (auto simp: entry_of_def absorb_gate_def last_gate_snoc carried_name_snoc js_or_truthy Let_def)

lemma entry_of_new:
  "pairId g \<notin> pairId ` set gs \<Longrightarrow>
   entry_of names cps (gs @ [g]) (pairId g) = absorb_gate names cps g (new_entry names cps g)"
  by (cases "gtype g")
     (auto simp: entry_of_def absorb_gate_def new_entry_def last_gate_snoc carried_name_snoc
        last_gate_unseen carried_name_unseen js_or_truthy Let_def opt_confirmed_def opt_editing_def)

lemma groups_modify_skip:
  "k \<notin> fst ` set G \<Longrightarrow> groups_modify k f (G @ H) = G @ groups_modify k f H"
  by (induction G) auto

lemma groups_modify_map:
  "distinct ks \<Longrightarrow>
   groups_modify k f (map (\<lambda>j. (j, E j)) ks) = map (\<lambda>j. (j, if j = k then f (E j) else E j)) ks"
proof (induction ks)
  case Nil
  then show ?case by simp
next
  case (Cons a ks)
  show ?case
  proof (cases "a = k")
    case True
    with Cons.prems have "k \<notin> set ks" by simp
    then have "map (\<lambda>j. (j, E j)) ks = map (\<lambda>j. (j, if j = k then f (E j) else E j)) ks"
      by (intro map_cong) auto
    with True show ?thesis by simp
  next
    case False
    with Cons show ?thesis by simp
  qed
qed

lemma build_groups_closed:
  "build_groups names cps gs = map (\<lambda>k. (k, entry_of names cps gs k)) (pair_ids gs)"
proof (induction gs rule: rev_induct)
  case Nil
  show ?case by (simp add: build_groups_def pair_ids_def)
next
  case (snoc g gs)
  let ?G = "map (\<lambda>k. (k, entry_of names cps gs k)) (pair_ids gs)"
  have step: "build_groups names cps (gs @ [g]) = gate_step names cps ?G g"
    using snoc.IH by (simp add: build_groups_def)
  have keys: "fst ` set ?G = pairId ` set gs"
    by (simp add: image_image set_pair_ids)
  show ?case
  proof (cases "pairId g \<in> pairId ` set gs")
    case True
    then have "gate_step names cps ?G g =
        map (\<lambda>j. (j, if j = pairId g then absorb_gate names cps g (entry_of names cps gs j)
                       else entry_of names cps gs j)) (pair_ids gs)"
      using keys by (simp add: gate_step_def groups_has_def groups_modify_map distinct_pair_ids set_pair_ids)
    also have "\<dots> = map (\<lambda>k. (k, entry_of names cps (gs @ [g]) k)) (pair_ids gs)"
      by (intro map_cong) (auto simp: entry_of_absorb entry_of_other)
    finally show ?thesis
      using True step by (simp add: pair_ids_snoc set_pair_ids)
  next
    case False
    then have a: "gate_step names cps ?G g =
        ?G @ [(pairId g, absorb_gate names cps g (new_entry names cps g))]"
      using keys by (simp add: gate_step_def groups_has_def groups_modify_skip set_pair_ids)
    have "entry_of names cps (gs @ [g]) k = entry_of names cps gs k" if "k \<in> set (pair_ids gs)" for k
      using that False by (intro entry_of_other) (auto simp: set_pair_ids)
    then have b: "?G = map (\<lambda>k. (k, entry_of names cps (gs @ [g]) k)) (pair_ids gs)"
      by simp
    have c: "pair_ids (gs @ [g]) = pair_ids gs @ [pairId g]"
      using False by (simp add: pair_ids_snoc set_pair_ids)
    show ?thesis
      unfolding step a c using False by (simp add: b entry_of_new)
  qed
qed

lemma gatePairs_of_closed:
  "gatePairs_of names cps gs =
     filter (\<lambda>p. pair_start p \<noteq> None \<and> pair_end p \<noteq> None) (map (entry_of names cps gs) (pair_ids gs))"
  by (simp add: gatePairs_of_def build_groups_closed comp_def)

lemmas gatePairs_eval =
  gatePairs_of_def build_groups_def gate_step_def groups_has_def new_entry_def absorb_gate_def
  js_or_def names_get_def cps_get_def opt_confirmed_def opt_editing_def default_pair_name_def
  show_int_def show_nat.simps digit_char_def mk_gate_def

lemma find_SomeD: "find P xs = Some x \<Longrightarrow> x \<in> set xs \<and> P x"
  by (induction xs) (auto split: if_splits)

lemma last_gate_Some:
  "last_gate k ty gs = Some a \<Longrightarrow> a \<in> set gs \<and> pairId a = k \<and> gtype a = ty"
  unfolding last_gate_def by (drule find_SomeD) simp

lemma last_gate_None:
  "last_gate k ty gs = None \<longleftrightarrow> \<not> (\<exists>g \<in> set gs. pairId g = k \<and> gtype g = ty)"
  unfolding last_gate_def by (auto simp: find_None_iff)

lemma entry_of_sel:
  "pair_pairId (entry_of names cps gs k) = k"
  "pair_start (entry_of names cps gs k) = last_gate k Start gs"
  "pair_end (entry_of names cps gs k) = last_gate k End gs"
  "checkpoints (entry_of names cps gs k) = cps_get cps k"
  "pair_confirmed (entry_of names cps gs k) =
     (opt_confirmed (last_gate k Start gs) \<and> opt_confirmed (last_gate k End gs))"
  "pair_editing (entry_of names cps gs k) =
     (opt_editing (last_gate k Start gs) \<or> opt_editing (last_gate k End gs))"
  "pair_name (entry_of names cps gs k) =
     js_or (names_get names k) (js_or (carried_name k gs) (default_pair_name k))"
  by (simp_all add: entry_of_def)

lemma gatePairs_of_mem:
  "p \<in> set (gatePairs_of names cps gs) \<longleftrightarrow>
     (\<exists>k \<in> pairId ` set gs. p = entry_of names cps gs k \<and>
        last_gate k Start gs \<noteq> None \<and> last_gate k End gs \<noteq> None)"
  unfolding gatePairs_of_closed by (auto simp: set_pair_ids entry_of_sel)

section \<open>What the methods leave untouched\<close>

lemma recalc_frame:
  "fst (recalcAllSegmentTimes net s) = s\<lparr>tracks := tracks (fst (recalcAllSegmentTimes net s))\<rparr>"
  by (simp add: recalcAllSegmentTimes_def Let_def split: prod.splits)

lemma recalc_gates [simp]:
  "timeGates (fst (recalcAllSegmentTimes net s)) = timeGates s"
  "pairCheckpoints (fst (recalcAllSegmentTimes net s)) = pairCheckpoints s"
  "pairNames (fst (recalcAllSegmentTimes net s)) = pairNames s"
  "selectedTrackIds (fst (recalcAllSegmentTimes net s)) = selectedTrackIds s"
  by (subst recalc_frame, simp)+

lemma fetchLeaderboard_frame:
  "fetchLeaderboard net s = s\<lparr>leaderboard := leaderboard (fetchLeaderboard net s)\<rparr>"
  by (simp add: fetchLeaderboard_def split: option.splits sum.splits)

lemma fetchLeaderboard_gates [simp]:
  "timeGates (fetchLeaderboard net s) = timeGates s"
  "pairCheckpoints (fetchLeaderboard net s) = pairCheckpoints s"
  "pairNames (fetchLeaderboard net s) = pairNames s"
  "tracks (fetchLeaderboard net s) = tracks s"
  "bufferMeters (fetchLeaderboard net s) = bufferMeters s"
  by (subst fetchLeaderboard_frame, simp)+

lemma gatePairs_recalc [simp]: "gatePairs (fst (recalcAllSegmentTimes net s)) = gatePairs s"
  by (simp add: gatePairs_def)

lemma gatePairs_fetchLeaderboard [simp]: "gatePairs (fetchLeaderboard net s) = gatePairs s"
  by (simp add: gatePairs_def)

section \<open>\<^verbatim>\<open>startEditing\<close>\<close>

lemma edit_gate_eq: "edit_gate pid g = g\<lparr>editing := (pairId g = pid)\<rparr>"
  by (cases "confirmed g") (simp_all add: edit_gate_def Let_def)

lemma edit_gate_sel [simp]:
  "pairId (edit_gate pid g) = pairId g"
  "gtype (edit_gate pid g) = gtype g"
  "name (edit_gate pid g) = name g"
  "confirmed (edit_gate pid g) = confirmed g"
  "editing (edit_gate pid g) = (pairId g = pid)"
  by (simp_all add: edit_gate_eq)

lemma editing_ids_startEditing:
  "editing_ids (map (edit_gate pid) gs) = (if pid \<in> pairId ` set gs then [pid] else [])"
proof -
  have "map pairId (filter editing (map (edit_gate pid) gs)) = filter (\<lambda>k. k = pid) (map pairId gs)"
    by (induction gs) auto
  moreover have "remdups (filter (\<lambda>k. k = pid) ks) = (if pid \<in> set ks then [pid] else [])" for ks :: "int list"
    by (induction ks) auto
  ultimately show ?thesis by (simp add: editing_ids_def)
qed

lemma startEditing_at_most_one: "at_most_one_editing (timeGates (startEditing pid s))"
  by (simp add: at_most_one_editing_def startEditing_def editing_ids_startEditing)

subsection \<open>The aggregator under a gate-wise update\<close>

lemma gatePairs_of_proj:
  "map h (gatePairs_of names cps gs) =
     map (\<lambda>k. h (entry_of names cps gs k))
       (filter (\<lambda>k. last_gate k Start gs \<noteq> None \<and> last_gate k End gs \<noteq> None) (pair_ids gs))"
  by (simp add: gatePairs_of_closed filter_map comp_def entry_of_sel)

lemma find_map_pres:
  "(\<And>x. P (f x) = P x) \<Longrightarrow> find P (map f xs) = map_option f (find P xs)"
  by (induction xs) simp_all

lemma last_gate_map:
  assumes "\<And>g. pairId (f g) = pairId g" and "\<And>g. gtype (f g) = gtype g"
  shows "last_gate k ty (map f gs) = map_option f (last_gate k ty gs)"
proof -
  have "find (\<lambda>g. pairId g = k \<and> gtype g = ty) (map f (rev gs)) =
        map_option f (find (\<lambda>g. pairId g = k \<and> gtype g = ty) (rev gs))"
    by (rule find_map_pres) (simp add: assms)
  then show ?thesis by (simp add: last_gate_def rev_map)
qed

lemma pair_ids_map:
  assumes "\<And>g. pairId (f g) = pairId g"
  shows "pair_ids (map f gs) = pair_ids gs"
  by (simp add: pair_ids_def comp_def assms)

lemma gatePairs_startEditing:
  "map pair_pairId (gatePairs (startEditing pid s)) = map pair_pairId (gatePairs s)"
  "map pair_confirmed (gatePairs (startEditing pid s)) = map pair_confirmed (gatePairs s)"
proof -
  have lg: "last_gate k ty (map (edit_gate pid) gs) = map_option (edit_gate pid) (last_gate k ty gs)"
    for k ty gs
    by (rule last_gate_map) simp_all
  have ids: "pair_ids (map (edit_gate pid) gs) = pair_ids gs" for gs
    by (rule pair_ids_map) simp
  have oc: "opt_confirmed (map_option (edit_gate pid) x) = opt_confirmed x" for x
    by (cases x) (simp_all add: opt_confirmed_def)
  show "map pair_pairId (gatePairs (startEditing pid s)) = map pair_pairId (gatePairs s)"
    by (simp add: gatePairs_def startEditing_def gatePairs_of_proj entry_of_sel lg ids)
  show "map pair_confirmed (gatePairs (startEditing pid s)) = map pair_confirmed (gatePairs s)"
    by (simp add: gatePairs_def startEditing_def gatePairs_of_proj entry_of_sel lg ids oc)
qed

section \<open>\<^verbatim>\<open>toggleTrack\<close>\<close>

lemma indexOf_nonneg: "indexOf xs x \<ge> 0 \<longleftrightarrow> x \<in> set xs"
  by (induction xs) (auto simp: Let_def)

lemma indexOf_ge_minus1: "indexOf xs x \<ge> - 1"
  by (induction xs) (auto simp: Let_def)

lemma splice1_indexOf: "x \<in> set xs \<Longrightarrow> splice1 (nat (indexOf xs x)) xs = remove1 x xs"
proof (induction xs)
  case Nil
  then show ?case by simp
next
  case (Cons y ys)
  show ?case
  proof (cases "y = x")
    case True
    then show ?thesis by (simp add: splice1_def)
  next
    case False
    with Cons.prems have mem: "x \<in> set ys" by simp
    then have nn: "indexOf ys x \<ge> 0" by (simp add: indexOf_nonneg)
    then have "nat (indexOf ys x + 1) = Suc (nat (indexOf ys x))" by simp
    with False nn Cons.IH [OF mem] show ?thesis
      by (simp add: splice1_def Let_def)
  qed
qed

lemma toggleTrack_eq:
  "toggleTrack x s = s\<lparr>selectedTrackIds := toggle_ids x (selectedTrackIds s)\<rparr>"
  by (simp add: toggleTrack_def toggle_ids_def Let_def indexOf_nonneg splice1_indexOf)

lemma count_list_remove1:
  "count_list (remove1 x xs) y = (if y = x then count_list xs x - 1 else count_list xs y)"
  by (induction xs) auto

lemma count_toggle_ids:
  "count_list (toggle_ids x xs) y =
     (if y = x then (if count_list xs x = 0 then 1 else count_list xs x - 1) else count_list xs y)"
  by (auto simp: toggle_ids_def count_list_remove1 count_list_0_iff)

lemma set_eq_count: "set xs = set ys \<longleftrightarrow> (\<forall>y. (count_list xs y = 0) = (count_list ys y = 0))"
  by (auto simp: count_list_0_iff)

lemma toggle_ids_twice_set:
  "set (toggle_ids x (toggle_ids x xs)) = set xs \<longleftrightarrow> count_list xs x \<noteq> 2"
proof -
  have "(\<forall>y. (count_list (toggle_ids x (toggle_ids x xs)) y = 0) = (count_list xs y = 0))
        \<longleftrightarrow> ((count_list (toggle_ids x (toggle_ids x xs)) x = 0) = (count_list xs x = 0))"
    by (auto simp: count_toggle_ids)
  also have "\<dots> \<longleftrightarrow> count_list xs x \<noteq> 2"
    by (auto simp: count_toggle_ids)
  finally show ?thesis by (simp add: set_eq_count)
qed

section \<open>The editing invariant under the methods\<close>

lemma at_most_one_editing_Nil: "at_most_one_editing []"
  by (simp add: at_most_one_editing_def editing_ids_def)

lemma at_most_one_editing_none: "\<forall>g \<in> set gs. \<not> editing g \<Longrightarrow> at_most_one_editing gs"
proof -
  assume "\<forall>g \<in> set gs. \<not> editing g"
  then have "filter editing gs = []" by (simp add: filter_empty_conv)
  then show ?thesis by (simp add: at_most_one_editing_def editing_ids_def)
qed

lemma editing_ids_filter:
  "editing_ids (filter (\<lambda>g. pairId g \<noteq> pid) gs) = filter (\<lambda>k. k \<noteq> pid) (editing_ids gs)"
proof -
  have "map pairId (filter editing (filter (\<lambda>g. pairId g \<noteq> pid) gs)) =
        filter (\<lambda>k. k \<noteq> pid) (map pairId (filter editing gs))"
    by (induction gs) auto
  then show ?thesis by (simp add: editing_ids_def remdups_filter)
qed

lemma editing_ids_confirm:
  "editing_ids (map (confirm_gate pid n) gs) = filter (\<lambda>k. k \<noteq> pid) (editing_ids gs)"
proof -
  have "map pairId (filter editing (map (confirm_gate pid n) gs)) =
        filter (\<lambda>k. k \<noteq> pid) (map pairId (filter editing gs))"
    by (induction gs) (auto simp: confirm_gate_def)
  then show ?thesis by (simp add: editing_ids_def remdups_filter)
qed

lemma length_filter_le_1: "length xs \<le> Suc 0 \<Longrightarrow> length (filter P xs) \<le> Suc 0"
  using length_filter_le [of P xs] by linarith

lemma fst_case_prod_map: "fst (case p of (a, b) \<Rightarrow> (f a, b)) = f (fst p)"
  by (cases p) simp

lemma startNewCourse_at_most_one: "at_most_one_editing (timeGates (startNewCourse s))"
  by (simp add: startNewCourse_def at_most_one_editing_Nil)

lemma removeGatePair_timeGates:
  "timeGates (fst (removeGatePair net pid s)) = filter (\<lambda>g. pairId g \<noteq> pid) (timeGates s)"
  by (simp add: removeGatePair_def Let_def)

lemma removeGatePair_at_most_one:
  "at_most_one_editing (timeGates s) \<Longrightarrow> at_most_one_editing (timeGates (fst (removeGatePair net pid s)))"
  by (simp add: removeGatePair_timeGates at_most_one_editing_def editing_ids_filter length_filter_le_1)

lemma saveAndConfirmGate_timeGates:
  "timeGates (fst (saveAndConfirmGate net pid s)) = map (confirm_gate pid (saved_name s pid)) (timeGates s)"
  by (simp add: saveAndConfirmGate_def Let_def fst_case_prod_map)

lemma saveAndConfirmGate_at_most_one:
  "at_most_one_editing (timeGates s) \<Longrightarrow>
   at_most_one_editing (timeGates (fst (saveAndConfirmGate net pid s)))"
  by (simp add: saveAndConfirmGate_timeGates at_most_one_editing_def editing_ids_confirm length_filter_le_1)

subsection \<open>Pairs and their gates\<close>

lemma gatePairs_of_pair_gates:
  assumes "p \<in> set (gatePairs_of names cps gates)"
  shows "\<exists>a b. pair_start p = Some a \<and> pair_end p = Some b \<and>
               a \<in> set gates \<and> pairId a = pair_pairId p \<and> gtype a = Start \<and>
               b \<in> set gates \<and> pairId b = pair_pairId p \<and> gtype b = End \<and>
               pair_confirmed p = (confirmed a \<and> confirmed b) \<and>
               pair_editing p = (editing a \<or> editing b)"
proof -
  from assms obtain k a b where p: "p = entry_of names cps gates k"
    and a: "last_gate k Start gates = Some a" and b: "last_gate k End gates = Some b"
    by (auto simp: gatePairs_of_mem)
  from a b last_gate_Some [OF a] last_gate_Some [OF b] show ?thesis
    by (simp add: p entry_of_sel opt_confirmed_def opt_editing_def)
qed

lemma gatePairs_of_ids_subset:
  "pair_pairId ` set (gatePairs_of names cps gates) \<subseteq> pairId ` set gates"
  by (auto simp: gatePairs_of_mem entry_of_sel)

subsection \<open>\<^verbatim>\<open>removeGatePair\<close>\<close>

lemma removeGatePair_maps:
  "pairCheckpoints (fst (removeGatePair net pid s)) = (pairCheckpoints s)(pid := None)"
  "pairNames (fst (removeGatePair net pid s)) = (pairNames s)(pid := None)"
  by (simp_all add: removeGatePair_def Let_def)

subsection \<open>\<^verbatim>\<open>addGatePair\<close>\<close>

lemma next_from_fresh: "next_from i used \<notin> set used"
  by (induction i used rule: next_from.induct) (subst next_from.simps, auto)

lemma nextPairId_fresh: "nextPairId s \<notin> pairId ` set (timeGates s)"
  using next_from_fresh [of 1 "map pairId (timeGates s)"] by (simp add: nextPairId_def)

lemma remdups_snoc_twice: "k \<notin> set xs \<Longrightarrow> remdups (xs @ [k, k]) = remdups xs @ [k]"
  by (induction xs) auto

lemma editing_ids_addGatePair:
  "editing_ids (timeGates (addGatePair c n1 n2 s)) = editing_ids (timeGates s) @ [nextPairId s]"
proof -
  have "nextPairId s \<notin> set (map pairId (filter editing (timeGates s)))"
    using nextPairId_fresh [of s] by auto
  then have "remdups (map pairId (filter editing (timeGates s)) @ [nextPairId s, nextPairId s]) =
        remdups (map pairId (filter editing (timeGates s))) @ [nextPairId s]"
    by (rule remdups_snoc_twice)
  then show ?thesis
    by (simp add: addGatePair_def Let_def editing_ids_def)
qed

lemma editing_ids_Nil_iff: "editing_ids gs = [] \<longleftrightarrow> (\<forall>g \<in> set gs. \<not> editing g)"
  by (simp add: editing_ids_def filter_empty_conv)

lemma addGatePair_at_most_one_iff:
  "at_most_one_editing (timeGates (addGatePair c n1 n2 s)) \<longleftrightarrow> (\<forall>g \<in> set (timeGates s). \<not> editing g)"
proof -
  have "at_most_one_editing (timeGates (addGatePair c n1 n2 s)) \<longleftrightarrow> editing_ids (timeGates s) = []"
    by (simp add: at_most_one_editing_def editing_ids_addGatePair)
  then show ?thesis by (simp add: editing_ids_Nil_iff)
qed

section \<open>\<^verbatim>\<open>loadSelectedCourse\<close>\<close>

lemma load_gate_sel:
  "timeGates (load_gate s g) = timeGates s @ [course_start_gate g, course_end_gate g]"
  "pairNames (load_gate s g) = (pairNames s)(cg_pairId g \<mapsto> cg_name g)"
  "pairCheckpoints (load_gate s g) =
     (case cg_checkpoints g of
        Some cps \<Rightarrow> (pairCheckpoints s)(cg_pairId g \<mapsto> map (\<lambda>cp. \<lparr> lat = lat cp, lon = lon cp \<rparr>) cps)
      | None \<Rightarrow> pairCheckpoints s)"
  by (simp_all add: load_gate_def Let_def split: option.splits)

lemma foldl_load_gate:
  "timeGates (foldl load_gate s gs) =
     timeGates s @ concat (map (\<lambda>g. [course_start_gate g, course_end_gate g]) gs)"
  "pairNames (foldl load_gate s gs) = foldl (\<lambda>m g. m(cg_pairId g \<mapsto> cg_name g)) (pairNames s) gs"
  "pairCheckpoints (foldl load_gate s gs) =
     foldl (\<lambda>m g. case cg_checkpoints g of
                     Some cps \<Rightarrow> m(cg_pairId g \<mapsto> map (\<lambda>cp. \<lparr> lat = lat cp, lon = lon cp \<rparr>) cps)
                   | None \<Rightarrow> m) (pairCheckpoints s) gs"
  by (induction gs arbitrary: s) (simp_all add: load_gate_sel)

lemma loadSelectedCourse_success:
  assumes "selectedCourseId s = Some cid" and "cid \<noteq> 0" and "get_course net cid = Inr c"
  shows "timeGates (fst (loadSelectedCourse net s)) = course_flat_gates c"
    and "pairNames (fst (loadSelectedCourse net s)) = course_names c"
    and "pairCheckpoints (fst (loadSelectedCourse net s)) = course_checkpoints c"
  using assms
  by (simp_all add: loadSelectedCourse_def Let_def foldl_load_gate
      course_flat_gates_def course_names_def course_checkpoints_def)

lemma loadSelectedCourse_unchanged:
  "course_id_falsy (selectedCourseId s) \<or> (\<exists>cid e. selectedCourseId s = Some cid \<and> get_course net cid = Inl e)
   \<Longrightarrow> loadSelectedCourse net s = (s, [])"
  by (auto simp: loadSelectedCourse_def course_id_falsy_def split: option.splits)

lemma course_flat_gates_flags:
  "g \<in> set (course_flat_gates c) \<Longrightarrow> confirmed g \<and> \<not> editing g"
  by (auto simp: course_flat_gates_def course_start_gate_def course_end_gate_def)

lemma loadSelectedCourse_at_most_one:
  "at_most_one_editing (timeGates s) \<Longrightarrow> at_most_one_editing (timeGates (fst (loadSelectedCourse net s)))"
proof (cases "\<exists>cid c. selectedCourseId s = Some cid \<and> cid \<noteq> 0 \<and> get_course net cid = Inr c")
  case True
  then obtain cid c where "selectedCourseId s = Some cid" "cid \<noteq> 0" "get_course net cid = Inr c"
    by blast
  then have "timeGates (fst (loadSelectedCourse net s)) = course_flat_gates c"
    by (rule loadSelectedCourse_success)
  then show ?thesis
    by (simp add: at_most_one_editing_none course_flat_gates_flags)
next
  case False
  then have "loadSelectedCourse net s = (s, [])"
    by (auto simp: loadSelectedCourse_def split: option.splits sum.splits)
  moreover assume "at_most_one_editing (timeGates s)"
  ultimately show ?thesis by simp
qed

lemma dom_course_names_fold:
  "dom (foldl (\<lambda>m g. m(cg_pairId g \<mapsto> cg_name g)) m gs) = dom m \<union> cg_pairId ` set gs"
  by (induction gs arbitrary: m) auto

lemma dom_course_names: "dom (course_names c) = cg_pairId ` set (course_gates c)"
  by (simp add: course_names_def dom_course_names_fold)

lemma dom_course_checkpoints_fold:
  "dom (foldl (\<lambda>m g. case cg_checkpoints g of
                     Some cps \<Rightarrow> m(cg_pairId g \<mapsto> map (\<lambda>cp. \<lparr> lat = lat cp, lon = lon cp \<rparr>) cps)
                   | None \<Rightarrow> m) m gs)
     = dom m \<union> cg_pairId ` {g \<in> set gs. cg_checkpoints g \<noteq> None}"
  by (induction gs arbitrary: m) (auto split: option.splits)

lemma dom_course_checkpoints:
  "dom (course_checkpoints c) = cg_pairId ` {g \<in> set (course_gates c). cg_checkpoints g \<noteq> None}"
  by (simp add: course_checkpoints_def dom_course_checkpoints_fold)

lemma course_gate_sel [simp]:
  "pairId (course_start_gate g) = cg_pairId g" "gtype (course_start_gate g) = Start"
  "pairId (course_end_gate g) = cg_pairId g" "gtype (course_end_gate g) = End"
  by (simp_all add: course_start_gate_def course_end_gate_def)

lemma pair_ids_flat_distinct:
  "distinct (map cg_pairId gs) \<Longrightarrow>
   pair_ids (concat (map (\<lambda>g. [course_start_gate g, course_end_gate g]) gs)) = map cg_pairId gs"
proof (induction gs rule: rev_induct)
  case Nil
  show ?case by (simp add: pair_ids_def)
next
  case (snoc g gs)
  let ?F = "concat (map (\<lambda>g. [course_start_gate g, course_end_gate g]) gs)"
  from snoc have ih: "pair_ids ?F = map cg_pairId gs" and fresh: "cg_pairId g \<notin> cg_pairId ` set gs"
    by simp_all
  have "pair_ids ((?F @ [course_start_gate g]) @ [course_end_gate g]) = map cg_pairId gs @ [cg_pairId g]"
    unfolding pair_ids_snoc using fresh by (simp add: ih)
  then show ?case by simp
qed

lemma pairId_flat: "pairId ` set (course_flat_gates c) = cg_pairId ` set (course_gates c)"
  by (auto simp: course_flat_gates_def image_iff)

lemma last_gate_flat:
  assumes "k \<in> cg_pairId ` set (course_gates c)"
  shows "last_gate k Start (course_flat_gates c) \<noteq> None" and "last_gate k End (course_flat_gates c) \<noteq> None"
proof -
  from assms obtain g where g: "g \<in> set (course_gates c)" "cg_pairId g = k" by auto
  then have "course_start_gate g \<in> set (course_flat_gates c)" "course_end_gate g \<in> set (course_flat_gates c)"
    by (auto simp: course_flat_gates_def)
  with g show "last_gate k Start (course_flat_gates c) \<noteq> None" "last_gate k End (course_flat_gates c) \<noteq> None"
    unfolding last_gate_None by (metis course_gate_sel)+
qed

lemma gatePairs_of_course_ids:
  assumes "distinct (map cg_pairId (course_gates c))"
  shows "map pair_pairId (gatePairs_of names cps (course_flat_gates c)) = map cg_pairId (course_gates c)"
proof -
  have ids: "pair_ids (course_flat_gates c) = map cg_pairId (course_gates c)"
    unfolding course_flat_gates_def using assms by (rule pair_ids_flat_distinct)
  have "filter (\<lambda>k. last_gate k Start (course_flat_gates c) \<noteq> None \<and>
                     last_gate k End (course_flat_gates c) \<noteq> None) (map cg_pairId (course_gates c))
        = map cg_pairId (course_gates c)"
    by (rule filter_True) (auto simp: last_gate_flat)
  then show ?thesis
    by (simp add: gatePairs_of_proj entry_of_sel ids)
qed

lemma gatePairs_of_course_flags:
  assumes "p \<in> set (gatePairs_of names cps (course_flat_gates c))"
  shows "pair_confirmed p \<and> \<not> pair_editing p"
proof -
  from gatePairs_of_pair_gates [OF assms] obtain a b where
    "a \<in> set (course_flat_gates c)" "b \<in> set (course_flat_gates c)"
    "pair_confirmed p = (confirmed a \<and> confirmed b)" "pair_editing p = (editing a \<or> editing b)"
    by blast
  then show ?thesis
    by (simp add: course_flat_gates_flags)
qed

section \<open>The payload and the loop of \<^verbatim>\<open>recalcAllSegmentTimes\<close>\<close>

lemma api_of_pair_Some: "payload_filter p \<Longrightarrow> api_of_pair p \<noteq> None"
  by (auto simp: payload_filter_def api_of_pair_def split: option.splits)

lemma payload_keeps_all:
  "payload_of_pairs ps = map (the \<circ> api_of_pair) (filter payload_filter ps)"
proof -
  have "filter (\<lambda>p. api_of_pair p \<noteq> None) (filter payload_filter ps) = filter payload_filter ps"
    by (rule filter_True) (simp add: api_of_pair_Some)
  then show ?thesis
    by (simp add: payload_of_pairs_def map_filter_def comp_def)
qed

lemma payload_empty_iff:
  "gatePairsToApiPayload s = [] \<longleftrightarrow> (\<forall>p \<in> set (gatePairs s). \<not> pair_confirmed p)"
proof -
  have "payload_filter p = pair_confirmed p" if "p \<in> set (gatePairs s)" for p
    using gatePairs_of_pair_gates [of p "pairNames s" "pairCheckpoints s" "timeGates s"] that
    by (auto simp: gatePairs_def payload_filter_def)
  then show ?thesis
    by (auto simp: gatePairsToApiPayload_def payload_keeps_all filter_empty_conv)
qed

lemma recalc_tracks_Cons:
  "fst (recalc_tracks post gates buf k (t # ts)) =
     (if points t = [] then t\<lparr>segmentTimes := Some []\<rparr> # fst (recalc_tracks post gates buf k ts)
      else store_result (post k (request_of gates buf t)) t # fst (recalc_tracks post gates buf (Suc k) ts))"
  "snd (recalc_tracks post gates buf k (t # ts)) =
     (if points t = [] then snd (recalc_tracks post gates buf k ts)
      else request_of gates buf t # snd (recalc_tracks post gates buf (Suc k) ts))"
  by (simp_all add: case_prod_beta)

lemma recalc_tracks_length: "length (fst (recalc_tracks post gates buf k ts)) = length ts"
  by (induction ts arbitrary: k) (simp_all add: recalc_tracks_Cons del: recalc_tracks.simps(2))

lemma recalc_tracks_requests:
  "snd (recalc_tracks post gates buf k ts) = map (request_of gates buf) (filter (\<lambda>t. points t \<noteq> []) ts)"
  by (induction ts arbitrary: k) (simp_all add: recalc_tracks_Cons del: recalc_tracks.simps(2))

lemma recalc_tracks_nth:
  "i < length ts \<Longrightarrow>
   fst (recalc_tracks post gates buf k ts) ! i =
     (if points (ts ! i) = [] then (ts ! i)\<lparr>segmentTimes := Some []\<rparr>
      else store_result (post (k + request_index ts i) (request_of gates buf (ts ! i))) (ts ! i))"
proof (induction ts arbitrary: k i)
  case Nil
  then show ?case by simp
next
  case (Cons t ts)
  show ?case
  proof (cases i)
    case 0
    then show ?thesis
      by (simp add: request_index_def recalc_tracks_Cons del: recalc_tracks.simps(2))
  next
    case (Suc j)
    with Cons.prems have j: "j < length ts" by simp
    show ?thesis
    proof (cases "points t = []")
      case True
      with Suc Cons.IH [OF j, of k] show ?thesis
        by (simp add: request_index_def recalc_tracks_Cons del: recalc_tracks.simps(2))
    next
      case False
      with Suc Cons.IH [OF j, of "Suc k"] show ?thesis
        by (simp add: request_index_def recalc_tracks_Cons del: recalc_tracks.simps(2))
    qed
  qed
qed

lemma recalc_nonempty:
  assumes "gatePairsToApiPayload s \<noteq> []"
  shows "tracks (fst (recalcAllSegmentTimes net s)) =
           fst (recalc_tracks (post_segment_times net) (gatePairsToApiPayload s)
                  (if bufferMeters s = 0 then 10 else bufferMeters s) 0 (tracks s))"
    and "snd (recalcAllSegmentTimes net s) =
           snd (recalc_tracks (post_segment_times net) (gatePairsToApiPayload s)
                  (if bufferMeters s = 0 then 10 else bufferMeters s) 0 (tracks s))"
  using assms by (auto simp: recalcAllSegmentTimes_def Let_def split: prod.splits)

lemma recalc_empty:
  assumes "gatePairsToApiPayload s = []"
  shows "tracks (fst (recalcAllSegmentTimes net s)) = map (\<lambda>t. t\<lparr>segmentTimes := Some []\<rparr>) (tracks s)"
    and "snd (recalcAllSegmentTimes net s) = []"
  using assms by (auto simp: recalcAllSegmentTimes_def Let_def)

section \<open>The properties\<close>

text \<open>
  C1. For every flat gate list, checkpoint mapping and custom-name mapping, the output of
  \<^verbatim>\<open>gatePairs\<close> has a pair with pair id \<open>k\<close> if and only if the list holds a start gate
  and an end gate with that pair id; every output pair has a start and an end gate of
  the list, of its own pair id, and its \<^verbatim>\<open>confirmed\<close> flag is the conjunction of the
  \<^verbatim>\<open>confirmed\<close> flags of these two gates; no pair id is output twice.
\<close>

theorem gatePairs_iff_start_and_end:
  "((\<exists>p \<in> set (gatePairs_of names cps gates). pair_pairId p = k) \<longleftrightarrow>
      (\<exists>g \<in> set gates. pairId g = k \<and> gtype g = Start) \<and>
      (\<exists>g \<in> set gates. pairId g = k \<and> gtype g = End))
   \<and> (\<forall>p \<in> set (gatePairs_of names cps gates).
         \<exists>a b. pair_start p = Some a \<and> pair_end p = Some b \<and>
               a \<in> set gates \<and> pairId a = pair_pairId p \<and> gtype a = Start \<and>
               b \<in> set gates \<and> pairId b = pair_pairId p \<and> gtype b = End \<and>
               pair_confirmed p = (confirmed a \<and> confirmed b))
   \<and> distinct (map pair_pairId (gatePairs_of names cps gates))"
proof (intro conjI)
  show "(\<exists>p \<in> set (gatePairs_of names cps gates). pair_pairId p = k) \<longleftrightarrow>
      (\<exists>g \<in> set gates. pairId g = k \<and> gtype g = Start) \<and>
      (\<exists>g \<in> set gates. pairId g = k \<and> gtype g = End)"
  proof
    assume "\<exists>p \<in> set (gatePairs_of names cps gates). pair_pairId p = k"
    then have "last_gate k Start gates \<noteq> None" and "last_gate k End gates \<noteq> None"
      by (auto simp: gatePairs_of_mem entry_of_sel)
    then show "(\<exists>g \<in> set gates. pairId g = k \<and> gtype g = Start) \<and>
      (\<exists>g \<in> set gates. pairId g = k \<and> gtype g = End)"
      by (simp add: last_gate_None)
  next
    assume r: "(\<exists>g \<in> set gates. pairId g = k \<and> gtype g = Start) \<and>
      (\<exists>g \<in> set gates. pairId g = k \<and> gtype g = End)"
    then have "last_gate k Start gates \<noteq> None" and "last_gate k End gates \<noteq> None"
      by (simp_all add: last_gate_None)
    moreover from r have "k \<in> pairId ` set gates" by auto
    ultimately have "entry_of names cps gates k \<in> set (gatePairs_of names cps gates)"
      unfolding gatePairs_of_mem by blast
    moreover have "pair_pairId (entry_of names cps gates k) = k"
      by (simp add: entry_of_sel)
    ultimately show "\<exists>p \<in> set (gatePairs_of names cps gates). pair_pairId p = k"
      by blast
  qed
next
  show "\<forall>p \<in> set (gatePairs_of names cps gates).
         \<exists>a b. pair_start p = Some a \<and> pair_end p = Some b \<and>
               a \<in> set gates \<and> pairId a = pair_pairId p \<and> gtype a = Start \<and>
               b \<in> set gates \<and> pairId b = pair_pairId p \<and> gtype b = End \<and>
               pair_confirmed p = (confirmed a \<and> confirmed b)"
  proof
    fix p
    assume "p \<in> set (gatePairs_of names cps gates)"
    then obtain k a b where p: "p = entry_of names cps gates k"
      and a: "last_gate k Start gates = Some a" and b: "last_gate k End gates = Some b"
      by (auto simp: gatePairs_of_mem)
    from a b last_gate_Some [OF a] last_gate_Some [OF b]
    show "\<exists>a b. pair_start p = Some a \<and> pair_end p = Some b \<and>
               a \<in> set gates \<and> pairId a = pair_pairId p \<and> gtype a = Start \<and>
               b \<in> set gates \<and> pairId b = pair_pairId p \<and> gtype b = End \<and>
               pair_confirmed p = (confirmed a \<and> confirmed b)"
      by (simp add: p entry_of_sel opt_confirmed_def)
  qed
next
  have "map pair_pairId (filter (\<lambda>p. pair_start p \<noteq> None \<and> pair_end p \<noteq> None)
          (map (entry_of names cps gates) (pair_ids gates)))
        = filter (\<lambda>k. last_gate k Start gates \<noteq> None \<and> last_gate k End gates \<noteq> None) (pair_ids gates)"
    by (simp add: filter_map comp_def entry_of_sel)
  then show "distinct (map pair_pairId (gatePairs_of names cps gates))"
    by (simp add: gatePairs_of_closed distinct_pair_ids)
qed

theorem gatePairs_iff_start_and_end_witness:
  "(\<exists>p. p \<in> set (gatePairs_of Map.empty Map.empty
        [mk_gate 1 Start None True False, mk_gate 2 Start None True False, mk_gate 1 End None False False])
      \<and> pair_pairId p = 1 \<and> \<not> pair_confirmed p)
   \<and> \<not> (\<exists>p. p \<in> set (gatePairs_of Map.empty Map.empty
        [mk_gate 1 Start None True False, mk_gate 2 Start None True False, mk_gate 1 End None False False])
      \<and> pair_pairId p = 2)"
proof -
  let ?gs = "[mk_gate 1 Start None True False, mk_gate 2 Start None True False, mk_gate 1 End None False False]"
  have ev: "gatePairs_of Map.empty Map.empty ?gs =
      [\<lparr> pair_pairId = 1, pair_name = ''Gate Pair 1'', pair_start = Some (mk_gate 1 Start None True False),
          pair_end = Some (mk_gate 1 End None False False), checkpoints = [],
          pair_confirmed = False, pair_editing = False \<rparr>]"
    by (simp add: gatePairs_eval)
  have "\<not> ((\<exists>g \<in> set ?gs. pairId g = 2 \<and> gtype g = Start) \<and>
           (\<exists>g \<in> set ?gs. pairId g = 2 \<and> gtype g = End))"
    by (simp add: mk_gate_def)
  with gatePairs_iff_start_and_end [of Map.empty Map.empty ?gs 2, THEN conjunct1]
  have "\<not> (\<exists>p \<in> set (gatePairs_of Map.empty Map.empty ?gs). pair_pairId p = 2)"
    by blast
  then have "\<not> (\<exists>p. p \<in> set (gatePairs_of Map.empty Map.empty ?gs) \<and> pair_pairId p = 2)"
    by blast
  then show ?thesis
    by (simp add: ev)
qed

text \<open>
  C2. When the aggregator reports at least one confirmed pair, \<^verbatim>\<open>recalcAllSegmentTimes\<close> keeps the number of tracks,
  issues one request for every track that has points whatever the answers to the other
  requests are, and writes to each track only what its own request returned: the empty
  list when the track has no points or its request failed, else the returned segments
  (the empty list when the body has none). For two tracks with points, one request failing
  and the other succeeding, the failing track ends with the empty list and the other with
  the segments returned for it, in either order.
\<close>

theorem recalc_failure_isolated:
  assumes "\<exists>p \<in> set (gatePairs s). pair_confirmed p"
  shows "length (tracks (fst (recalcAllSegmentTimes net s))) = length (tracks s)
     \<and> snd (recalcAllSegmentTimes net s) = map (track_request s) (filter (\<lambda>t. points t \<noteq> []) (tracks s))
     \<and> (\<forall>i < length (tracks s).
           tracks (fst (recalcAllSegmentTimes net s)) ! i =
             (if points (tracks s ! i) = [] then (tracks s ! i)\<lparr>segmentTimes := Some []\<rparr>
              else store_result
                     (post_segment_times net (request_index (tracks s) i) (track_request s (tracks s ! i)))
                     (tracks s ! i)))
     \<and> (tracks s = [t1, t2] \<and> points t1 \<noteq> [] \<and> points t2 \<noteq> [] \<and>
          post_segment_times net 0 (track_request s t1) = Inl e \<and>
          post_segment_times net 1 (track_request s t2) = Inr (Some segs)
          \<longrightarrow> tracks (fst (recalcAllSegmentTimes net s)) =
                [t1\<lparr>segmentTimes := Some []\<rparr>, t2\<lparr>segmentTimes := Some segs\<rparr>])
     \<and> (tracks s = [t1, t2] \<and> points t1 \<noteq> [] \<and> points t2 \<noteq> [] \<and>
          post_segment_times net 0 (track_request s t1) = Inr (Some segs) \<and>
          post_segment_times net 1 (track_request s t2) = Inl e
          \<longrightarrow> tracks (fst (recalcAllSegmentTimes net s)) =
                [t1\<lparr>segmentTimes := Some segs\<rparr>, t2\<lparr>segmentTimes := Some []\<rparr>])"
proof -
  from assms have ne: "gatePairsToApiPayload s \<noteq> []"
    by (simp add: payload_empty_iff)
  show ?thesis
  proof (intro conjI)
    show "length (tracks (fst (recalcAllSegmentTimes net s))) = length (tracks s)"
      by (simp add: recalc_nonempty [OF ne] recalc_tracks_length)
  next
    show "snd (recalcAllSegmentTimes net s) = map (track_request s) (filter (\<lambda>t. points t \<noteq> []) (tracks s))"
      by (simp add: recalc_nonempty [OF ne] recalc_tracks_requests track_request_def)
  next
    show "\<forall>i < length (tracks s).
             tracks (fst (recalcAllSegmentTimes net s)) ! i =
               (if points (tracks s ! i) = [] then (tracks s ! i)\<lparr>segmentTimes := Some []\<rparr>
                else store_result
                       (post_segment_times net (request_index (tracks s) i) (track_request s (tracks s ! i)))
                       (tracks s ! i))"
      by (simp add: recalc_nonempty [OF ne] recalc_tracks_nth track_request_def)
  next
    show "tracks s = [t1, t2] \<and> points t1 \<noteq> [] \<and> points t2 \<noteq> [] \<and>
            post_segment_times net 0 (track_request s t1) = Inl e \<and>
            post_segment_times net 1 (track_request s t2) = Inr (Some segs)
            \<longrightarrow> tracks (fst (recalcAllSegmentTimes net s)) =
                  [t1\<lparr>segmentTimes := Some []\<rparr>, t2\<lparr>segmentTimes := Some segs\<rparr>]"
      by (simp add: recalc_nonempty [OF ne] track_request_def store_result_def)
  next
    show "tracks s = [t1, t2] \<and> points t1 \<noteq> [] \<and> points t2 \<noteq> [] \<and>
            post_segment_times net 0 (track_request s t1) = Inr (Some segs) \<and>
            post_segment_times net 1 (track_request s t2) = Inl e
            \<longrightarrow> tracks (fst (recalcAllSegmentTimes net s)) =
                  [t1\<lparr>segmentTimes := Some segs\<rparr>, t2\<lparr>segmentTimes := Some []\<rparr>]"
      by (simp add: recalc_nonempty [OF ne] track_request_def store_result_def)
  qed
qed

theorem recalc_failure_isolated_witness:
  "tracks (fst (recalcAllSegmentTimes
      (mk_network (\<lambda>i. Inl (ApiError [])) (\<lambda>k r. if k = 0 then Inl (ApiError ''HTTP 500'') else Inr (Some [7, 8])))
      (createState\<lparr> tracks := [mk_track ''t1'' [mk_point 1 1] (Some [9]), mk_track ''t2'' [mk_point 2 2] None],
                     timeGates := [mk_gate 1 Start None True False, mk_gate 1 End None True False] \<rparr>)))
   = [mk_track ''t1'' [mk_point 1 1] (Some []), mk_track ''t2'' [mk_point 2 2] (Some [7, 8])]"
proof -
  let ?net = "mk_network (\<lambda>i. Inl (ApiError []))
                (\<lambda>k r. if k = 0 then Inl (ApiError ''HTTP 500'') else Inr (Some [7, 8]))"
  let ?t1 = "mk_track ''t1'' [mk_point 1 1] (Some [9]) :: nat track"
  let ?t2 = "mk_track ''t2'' [mk_point 2 2] None :: nat track"
  let ?s = "createState\<lparr> tracks := [?t1, ?t2],
                     timeGates := [mk_gate 1 Start None True False, mk_gate 1 End None True False] \<rparr>
            :: (nat, nat) app_state"
  have "list_ex pair_confirmed (gatePairs ?s)"
    by (simp add: gatePairs_def createState_def gatePairs_eval)
  then have pre: "\<exists>p \<in> set (gatePairs ?s). pair_confirmed p"
    by (simp add: list_ex_iff)
  have "tracks (fst (recalcAllSegmentTimes ?net ?s)) =
          [?t1\<lparr>segmentTimes := Some []\<rparr>, ?t2\<lparr>segmentTimes := Some [7, 8]\<rparr>]"
    using recalc_failure_isolated [OF pre, of ?net ?t1 ?t2 "ApiError ''HTTP 500''" "[7, 8]"]
    by (simp add: mk_network_def mk_track_def createState_def)
  then show ?thesis
    by (simp add: mk_track_def)
qed

text \<open>
  C3. When the aggregator reports no confirmed pair, \<^verbatim>\<open>gatePairsToApiPayload\<close> returns the
  empty list, and \<^verbatim>\<open>recalcAllSegmentTimes\<close> issues no segment-times request and leaves every
  loaded track with \<^verbatim>\<open>segmentTimes\<close> the empty list, changing nothing else.
\<close>

theorem recalc_without_confirmed_pairs:
  assumes "\<forall>p \<in> set (gatePairs s). \<not> pair_confirmed p"
  shows "gatePairsToApiPayload s = []
     \<and> recalcAllSegmentTimes net s = (s\<lparr>tracks := map (\<lambda>t. t\<lparr>segmentTimes := Some []\<rparr>) (tracks s)\<rparr>, [])
     \<and> list_all (\<lambda>t. segmentTimes t = Some []) (tracks (fst (recalcAllSegmentTimes net s)))"
proof -
  from assms have e: "gatePairsToApiPayload s = []"
    by (simp add: payload_empty_iff)
  then have r: "recalcAllSegmentTimes net s = (s\<lparr>tracks := map (\<lambda>t. t\<lparr>segmentTimes := Some []\<rparr>) (tracks s)\<rparr>, [])"
    by (simp add: recalcAllSegmentTimes_def)
  show ?thesis
    by (simp add: e r list_all_iff)
qed

theorem recalc_without_confirmed_pairs_witness:
  "recalcAllSegmentTimes (mk_network (\<lambda>i. Inl (ApiError [])) (\<lambda>k r. Inr (Some [7])))
     (createState\<lparr> tracks := [mk_track ''t1'' [mk_point 1 1] (Some [9]), mk_track ''t2'' [] None],
                    timeGates := [mk_gate 1 Start None True False, mk_gate 1 End None False True] \<rparr>)
   = (createState\<lparr> tracks := [mk_track ''t1'' [mk_point 1 1] (Some []), mk_track ''t2'' [] (Some [])],
                    timeGates := [mk_gate 1 Start None True False, mk_gate 1 End None False True] \<rparr>, [])"
proof -
  let ?s = "createState\<lparr> tracks := [mk_track ''t1'' [mk_point 1 1] (Some [9]), mk_track ''t2'' [] None],
                    timeGates := [mk_gate 1 Start None True False, mk_gate 1 End None False True] \<rparr>
            :: (nat, nat) app_state"
  have pre: "\<forall>p \<in> set (gatePairs ?s). \<not> pair_confirmed p"
    by (simp add: gatePairs_def createState_def gatePairs_eval)
  from recalc_without_confirmed_pairs [OF pre] show ?thesis
    by (simp add: createState_def mk_track_def)
qed

text \<open>
  C4. The invariant that the gates of at most one pair id have \<^verbatim>\<open>editing = true\<close> is kept
  by \<^verbatim>\<open>startEditing\<close>, \<^verbatim>\<open>saveAndConfirmGate\<close>, \<^verbatim>\<open>removeGatePair\<close>, \<^verbatim>\<open>loadSelectedCourse\<close> and
  \<^verbatim>\<open>startNewCourse\<close> (lemmas above), but not by \<^verbatim>\<open>addGatePair\<close>, which pushes two editing
  gates and clears no other gate's flag: from the initial state one call leaves one pair
  editing, and a second call leaves pairs 1 and 2 both editing.
\<close>

theorem addGatePair_second_pair_editing:
  "at_most_one_editing (timeGates (addGatePair \<lparr> lat = 49, lon = - 123 \<rparr> 100 100
       (createState :: (nat, nat) app_state)))
   \<and> \<not> at_most_one_editing (timeGates (addGatePair \<lparr> lat = 49, lon = - 123 \<rparr> 200 200
       (addGatePair \<lparr> lat = 49, lon = - 123 \<rparr> 100 100 (createState :: (nat, nat) app_state))))"
  by (simp add: addGatePair_at_most_one_iff) (simp add: addGatePair_def createState_def Let_def)

text \<open>
  C5. In a state where the gates of pair 1 are unconfirmed and editing, \<^verbatim>\<open>startEditing(2)\<close>
  sets \<^verbatim>\<open>editing\<close> on every gate of pair 2, leaves the gates of pair 1 with \<^verbatim>\<open>editing\<close> false
  and \<^verbatim>\<open>confirmed\<close> false, and leaves at most one pair id with an editing gate; the gates
  keep their pair ids and types.
\<close>

theorem startEditing_2_from_pair_1:
  assumes "\<forall>g \<in> set (timeGates s). pairId g = 1 \<longrightarrow> \<not> confirmed g \<and> editing g"
  shows "(\<forall>g \<in> set (timeGates (startEditing 2 s)). pairId g = 2 \<longrightarrow> editing g)
     \<and> (\<forall>g \<in> set (timeGates (startEditing 2 s)). pairId g = 1 \<longrightarrow> \<not> editing g \<and> \<not> confirmed g)
     \<and> at_most_one_editing (timeGates (startEditing 2 s))
     \<and> map pairId (timeGates (startEditing 2 s)) = map pairId (timeGates s)
     \<and> map gtype (timeGates (startEditing 2 s)) = map gtype (timeGates s)"
proof (intro conjI)
  show "at_most_one_editing (timeGates (startEditing 2 s))"
    by (rule startEditing_at_most_one)
next
  show "\<forall>g \<in> set (timeGates (startEditing 2 s)). pairId g = 2 \<longrightarrow> editing g"
    by (auto simp: startEditing_def)
next
  show "\<forall>g \<in> set (timeGates (startEditing 2 s)). pairId g = 1 \<longrightarrow> \<not> editing g \<and> \<not> confirmed g"
    using assms by (auto simp: startEditing_def)
qed (simp_all add: startEditing_def comp_def)

theorem startEditing_2_from_pair_1_witness:
  "timeGates (startEditing 2
      (createState\<lparr>timeGates := [mk_gate 1 Start None False True, mk_gate 1 End None False True,
                                  mk_gate 2 Start None True False, mk_gate 2 End None True False]\<rparr>
        :: (nat, nat) app_state))
   = [mk_gate 1 Start None False False, mk_gate 1 End None False False,
      mk_gate 2 Start None True True, mk_gate 2 End None True True]
   \<and> at_most_one_editing (timeGates (startEditing 2
      (createState\<lparr>timeGates := [mk_gate 1 Start None False True, mk_gate 1 End None False True,
                                  mk_gate 2 Start None True False, mk_gate 2 End None True False]\<rparr>
        :: (nat, nat) app_state)))"
proof -
  let ?s = "createState\<lparr>timeGates := [mk_gate 1 Start None False True, mk_gate 1 End None False True,
                                  mk_gate 2 Start None True False, mk_gate 2 End None True False]\<rparr>
        :: (nat, nat) app_state"
  have pre: "\<forall>g \<in> set (timeGates ?s). pairId g = 1 \<longrightarrow> \<not> confirmed g \<and> editing g"
    by (simp add: mk_gate_def)
  have ev: "timeGates (startEditing 2 ?s) = [mk_gate 1 Start None False False, mk_gate 1 End None False False,
      mk_gate 2 Start None True True, mk_gate 2 End None True True]"
    by (simp add: startEditing_def edit_gate_def mk_gate_def)
  from startEditing_2_from_pair_1 [OF pre] have "at_most_one_editing (timeGates (startEditing 2 ?s))"
    by blast
  with ev show ?thesis by blast
qed

text \<open>
  C6. After \<^verbatim>\<open>removeGatePair(pairId)\<close>, for every pair id: no gate of the flat list has
  that pair id, the checkpoint mapping and the name mapping have no entry for it, and the
  aggregator outputs no pair with it.
\<close>

theorem removeGatePair_leaves_nothing:
  "pid \<notin> pairId ` set (timeGates (fst (removeGatePair net pid s)))
   \<and> pairCheckpoints (fst (removeGatePair net pid s)) pid = None
   \<and> pairNames (fst (removeGatePair net pid s)) pid = None
   \<and> pid \<notin> pair_pairId ` set (gatePairs (fst (removeGatePair net pid s)))"
proof -
  have g: "pid \<notin> pairId ` set (timeGates (fst (removeGatePair net pid s)))"
    by (auto simp: removeGatePair_timeGates)
  moreover have "pair_pairId ` set (gatePairs (fst (removeGatePair net pid s)))
      \<subseteq> pairId ` set (timeGates (fst (removeGatePair net pid s)))"
    unfolding gatePairs_def by (rule gatePairs_of_ids_subset)
  ultimately show ?thesis
    by (auto simp: removeGatePair_maps)
qed

theorem removeGatePair_leaves_nothing_witness:
  "map pairId (timeGates (fst (removeGatePair
      \<lparr> get_course = (\<lambda>i. Inl (ApiError [])), get_leaderboard = (\<lambda>i. Inl (ApiError [])),
        post_segment_times = (\<lambda>k r. Inl (ApiError [])) \<rparr> 1
      (createState\<lparr> timeGates := [mk_gate 1 Start None True False, mk_gate 2 Start None True False,
                                   mk_gate 1 End None True False, mk_gate 2 End None True False],
                     pairNames := [1 \<mapsto> Some ''Ridge''] \<rparr> :: (nat, nat) app_state)))) = [2, 2]
   \<and> pairNames (fst (removeGatePair
      \<lparr> get_course = (\<lambda>i. Inl (ApiError [])), get_leaderboard = (\<lambda>i. Inl (ApiError [])),
        post_segment_times = (\<lambda>k r. Inl (ApiError [])) \<rparr> 1
      (createState\<lparr> timeGates := [mk_gate 1 Start None True False, mk_gate 2 Start None True False,
                                   mk_gate 1 End None True False, mk_gate 2 End None True False],
                     pairNames := [1 \<mapsto> Some ''Ridge''] \<rparr> :: (nat, nat) app_state))) 1 = None"
proof -
  let ?net = "\<lparr> get_course = (\<lambda>i. Inl (ApiError [])), get_leaderboard = (\<lambda>i. Inl (ApiError [])),
        post_segment_times = (\<lambda>k r. Inl (ApiError [])) \<rparr> :: (nat, nat) network"
  let ?s = "createState\<lparr> timeGates := [mk_gate 1 Start None True False, mk_gate 2 Start None True False,
                                   mk_gate 1 End None True False, mk_gate 2 End None True False],
                     pairNames := [1 \<mapsto> Some ''Ridge''] \<rparr> :: (nat, nat) app_state"
  have "map pairId (timeGates (fst (removeGatePair ?net 1 ?s))) = [2, 2]"
    by (simp add: removeGatePair_timeGates mk_gate_def)
  with removeGatePair_leaves_nothing [of 1 ?net ?s] show ?thesis
    by blast
qed

text \<open>
  C7. When a course is selected and its fetch succeeds, \<^verbatim>\<open>loadSelectedCourse\<close> leaves a flat
  gate list, a checkpoint mapping and a name mapping that are functions of the fetched
  payload alone, so nothing of the previous state remains in them: every gate is
  confirmed and not editing, the pair ids of gates and names are those of the payload, and
  the checkpoint keys are among them. Every pair the aggregator reports is confirmed and not
  editing; when the payload's pair ids are distinct the pairs are those of the payload, in
  order, so a payload of two pairs leaves exactly two pairs and four gates.
\<close>

theorem loadSelectedCourse_replaces_model:
  assumes "selectedCourseId s = Some cid" and "cid \<noteq> 0" and "get_course net cid = Inr c"
  shows "timeGates (fst (loadSelectedCourse net s)) = course_flat_gates c
     \<and> pairCheckpoints (fst (loadSelectedCourse net s)) = course_checkpoints c
     \<and> pairNames (fst (loadSelectedCourse net s)) = course_names c
     \<and> list_all (\<lambda>g. confirmed g \<and> \<not> editing g) (timeGates (fst (loadSelectedCourse net s)))
     \<and> pairId ` set (timeGates (fst (loadSelectedCourse net s))) = cg_pairId ` set (course_gates c)
     \<and> dom (pairNames (fst (loadSelectedCourse net s))) = cg_pairId ` set (course_gates c)
     \<and> dom (pairCheckpoints (fst (loadSelectedCourse net s))) \<subseteq> cg_pairId ` set (course_gates c)
     \<and> list_all (\<lambda>p. pair_confirmed p \<and> \<not> pair_editing p) (gatePairs (fst (loadSelectedCourse net s)))
     \<and> (distinct (map cg_pairId (course_gates c)) \<longrightarrow>
          map pair_pairId (gatePairs (fst (loadSelectedCourse net s))) = map cg_pairId (course_gates c))
     \<and> (length (course_gates c) = 2 \<and> distinct (map cg_pairId (course_gates c)) \<longrightarrow>
          length (gatePairs (fst (loadSelectedCourse net s))) = 2 \<and>
          length (timeGates (fst (loadSelectedCourse net s))) = 4)"
proof -
  let ?s' = "fst (loadSelectedCourse net s)"
  note eqs = loadSelectedCourse_success [OF assms]
  have gp: "gatePairs ?s' = gatePairs_of (course_names c) (course_checkpoints c) (course_flat_gates c)"
    by (simp add: gatePairs_def eqs)
  have flags: "list_all (\<lambda>g. confirmed g \<and> \<not> editing g) (timeGates ?s')"
    by (simp add: eqs list_all_iff course_flat_gates_flags)
  have pflags: "list_all (\<lambda>p. pair_confirmed p \<and> \<not> pair_editing p) (gatePairs ?s')"
    unfolding gp list_all_iff using gatePairs_of_course_flags by blast
  have ids: "map pair_pairId (gatePairs ?s') = map cg_pairId (course_gates c)"
    if "distinct (map cg_pairId (course_gates c))"
    unfolding gp using that by (rule gatePairs_of_course_ids)
  have len: "length (gatePairs ?s') = 2 \<and> length (timeGates ?s') = 4"
    if d: "distinct (map cg_pairId (course_gates c))" and l: "length (course_gates c) = 2"
  proof -
    have "length (map pair_pairId (gatePairs ?s')) = length (map cg_pairId (course_gates c))"
      using ids [OF d] by simp
    then have "length (gatePairs ?s') = 2" using l by simp
    moreover have "length (course_flat_gates c) = 2 * length (course_gates c)"
      unfolding course_flat_gates_def by (induction "course_gates c") (simp_all add: length_concat comp_def sum_list_triv)
    ultimately show ?thesis using l by (simp add: eqs)
  qed
  have doms: "dom (pairCheckpoints ?s') \<subseteq> cg_pairId ` set (course_gates c)"
    by (auto simp: eqs dom_course_checkpoints)
  show ?thesis
    using flags pflags ids len doms
    by (simp add: eqs pairId_flat dom_course_names)
qed

theorem loadSelectedCourse_replaces_model_witness:
  "map pairId (timeGates (fst (loadSelectedCourse
      (mk_network (\<lambda>i. Inr \<lparr> course_gates = [mk_course_gate 1 (Some ''Climb'') (Some [\<lparr> lat = 3, lon = 3 \<rparr>]),
                                                mk_course_gate 2 None None], buffer_m = 15 \<rparr>)
                  (\<lambda>k r. Inl (ApiError [])))
      (createState\<lparr> timeGates := [mk_gate 1 Start None True False, mk_gate 1 End None True False,
                                   mk_gate 2 Start None True False, mk_gate 2 End None True False,
                                   mk_gate 3 Start None False True, mk_gate 3 End None False True],
                     pairNames := [3 \<mapsto> Some ''Old''],
                     pairCheckpoints := [3 \<mapsto> [\<lparr> lat = 9, lon = 9 \<rparr>]],
                     selectedCourseId := Some 7 \<rparr>)))) = [1, 1, 2, 2]
   \<and> length (gatePairs (fst (loadSelectedCourse
      (mk_network (\<lambda>i. Inr \<lparr> course_gates = [mk_course_gate 1 (Some ''Climb'') (Some [\<lparr> lat = 3, lon = 3 \<rparr>]),
                                                mk_course_gate 2 None None], buffer_m = 15 \<rparr>)
                  (\<lambda>k r. Inl (ApiError [])))
      (createState\<lparr> timeGates := [mk_gate 1 Start None True False, mk_gate 1 End None True False,
                                   mk_gate 2 Start None True False, mk_gate 2 End None True False,
                                   mk_gate 3 Start None False True, mk_gate 3 End None False True],
                     pairNames := [3 \<mapsto> Some ''Old''],
                     pairCheckpoints := [3 \<mapsto> [\<lparr> lat = 9, lon = 9 \<rparr>]],
                     selectedCourseId := Some 7 \<rparr>)))) = 2
   \<and> 3 \<notin> dom (pairNames (fst (loadSelectedCourse
      (mk_network (\<lambda>i. Inr \<lparr> course_gates = [mk_course_gate 1 (Some ''Climb'') (Some [\<lparr> lat = 3, lon = 3 \<rparr>]),
                                                mk_course_gate 2 None None], buffer_m = 15 \<rparr>)
                  (\<lambda>k r. Inl (ApiError [])))
      (createState\<lparr> timeGates := [mk_gate 1 Start None True False, mk_gate 1 End None True False,
                                   mk_gate 2 Start None True False, mk_gate 2 End None True False,
                                   mk_gate 3 Start None False True, mk_gate 3 End None False True],
                     pairNames := [3 \<mapsto> Some ''Old''],
                     pairCheckpoints := [3 \<mapsto> [\<lparr> lat = 9, lon = 9 \<rparr>]],
                     selectedCourseId := Some 7 \<rparr>))))"
proof -
  let ?c = "\<lparr> course_gates = [mk_course_gate 1 (Some ''Climb'') (Some [\<lparr> lat = 3, lon = 3 \<rparr>]),
                               mk_course_gate 2 None None], buffer_m = 15 \<rparr>"
  let ?net = "mk_network (\<lambda>i. Inr ?c) (\<lambda>k r. Inl (ApiError []))"
  let ?s = "createState\<lparr> timeGates := [mk_gate 1 Start None True False, mk_gate 1 End None True False,
                                   mk_gate 2 Start None True False, mk_gate 2 End None True False,
                                   mk_gate 3 Start None False True, mk_gate 3 End None False True],
                     pairNames := [3 \<mapsto> Some ''Old''],
                     pairCheckpoints := [3 \<mapsto> [\<lparr> lat = 9, lon = 9 \<rparr>]],
                     selectedCourseId := Some 7 \<rparr> :: (nat, nat) app_state"
  have h1: "selectedCourseId ?s = Some 7" by simp
  have h2: "(7::int) \<noteq> 0" by simp
  have h3: "get_course ?net 7 = Inr ?c" by (simp add: mk_network_def)
  have d: "length (course_gates ?c) = 2 \<and> distinct (map cg_pairId (course_gates ?c))"
    by (simp add: mk_course_gate_def)
  have ids: "cg_pairId ` set (course_gates ?c) = {1, 2}"
    by (auto simp: mk_course_gate_def)
  have flat: "map pairId (course_flat_gates ?c) = [1, 1, 2, 2]"
    by (simp add: course_flat_gates_def mk_course_gate_def)
  note t = loadSelectedCourse_replaces_model [OF h1 h2 h3]
  from t have "timeGates (fst (loadSelectedCourse ?net ?s)) = course_flat_gates ?c" by blast
  then have a: "map pairId (timeGates (fst (loadSelectedCourse ?net ?s))) = [1, 1, 2, 2]"
    by (simp only: flat)
  from t d have b: "length (gatePairs (fst (loadSelectedCourse ?net ?s))) = 2" by blast
  from t have "dom (pairNames (fst (loadSelectedCourse ?net ?s))) = cg_pairId ` set (course_gates ?c)" by blast
  then have c: "3 \<notin> dom (pairNames (fst (loadSelectedCourse ?net ?s)))"
    by (simp only: ids) simp
  from a b c show ?thesis by blast
qed

text \<open>
  C8. The name of every output pair is the custom name of its pair id when that is
  truthy, else the name carried by a gate of the pair (the last one in the flat list with
  a truthy name), else \<^verbatim>\<open>"Gate Pair {pairId}"\<close>. For the two confirmed gates of pair 1 at
  (1,1) and (2,2) without names, with empty checkpoint and name mappings, the output is
  exactly one pair, confirmed, named \<^verbatim>\<open>"Gate Pair 1"\<close>.
\<close>

theorem gatePairs_name_tie_break:
  "(\<forall>p \<in> set (gatePairs_of names cps gates).
      pair_name p = js_or (names_get names (pair_pairId p))
                      (js_or (carried_name (pair_pairId p) gates) (default_pair_name (pair_pairId p))))
   \<and> map (\<lambda>p. (pair_pairId p, pair_confirmed p, pair_name p))
         (gatePairs_of Map.empty Map.empty
            [\<lparr> lat = 1, lon = 1, gate_id = i1, pairId = 1, name = None, gtype = Start,
                confirmed = True, editing = e1 \<rparr>,
             \<lparr> lat = 2, lon = 2, gate_id = i2, pairId = 1, name = None, gtype = End,
                confirmed = True, editing = e2 \<rparr>])
       = [(1, True, ''Gate Pair 1'')]"
proof (intro conjI)
  show "\<forall>p \<in> set (gatePairs_of names cps gates).
      pair_name p = js_or (names_get names (pair_pairId p))
                      (js_or (carried_name (pair_pairId p) gates) (default_pair_name (pair_pairId p)))"
    by (auto simp: gatePairs_of_mem entry_of_sel)
next
  show "map (\<lambda>p. (pair_pairId p, pair_confirmed p, pair_name p))
         (gatePairs_of Map.empty Map.empty
            [\<lparr> lat = 1, lon = 1, gate_id = i1, pairId = 1, name = None, gtype = Start,
                confirmed = True, editing = e1 \<rparr>,
             \<lparr> lat = 2, lon = 2, gate_id = i2, pairId = 1, name = None, gtype = End,
                confirmed = True, editing = e2 \<rparr>])
       = [(1, True, ''Gate Pair 1'')]"
    by (simp add: gatePairs_eval)
qed

theorem gatePairs_name_tie_break_witness:
  "map pair_name (gatePairs_of [1 \<mapsto> Some ''Ridge''] Map.empty
      [mk_gate 1 Start (Some ''A'') True False, mk_gate 1 End (Some ''B'') True False,
       mk_gate 2 Start (Some ''C'') True False, mk_gate 2 End None True False,
       mk_gate 3 Start None True False, mk_gate 3 End (Some []) True False])
   = [''Ridge'', ''C'', ''Gate Pair 3'']"
proof -
  let ?gs = "[mk_gate 1 Start (Some ''A'') True False, mk_gate 1 End (Some ''B'') True False,
       mk_gate 2 Start (Some ''C'') True False, mk_gate 2 End None True False,
       mk_gate 3 Start None True False, mk_gate 3 End (Some []) True False]"
  have ids: "map pair_pairId (gatePairs_of [1 \<mapsto> Some ''Ridge''] Map.empty ?gs) = [1, 2, 3]"
    by (simp add: gatePairs_eval)
  have names: "map pair_name (gatePairs_of [1 \<mapsto> Some ''Ridge''] Map.empty ?gs) =
     map (\<lambda>k. js_or (names_get [1 \<mapsto> Some ''Ridge''] k) (js_or (carried_name k ?gs) (default_pair_name k)))
       (map pair_pairId (gatePairs_of [1 \<mapsto> Some ''Ridge''] Map.empty ?gs))"
    using gatePairs_name_tie_break [of "[1 \<mapsto> Some ''Ridge'']" Map.empty ?gs]
    by (simp add: comp_def)
  show ?thesis
    unfolding names ids
    by (simp add: js_or_def names_get_def carried_name_def truthy_def default_pair_name_def
        show_int_def show_nat.simps digit_char_def mk_gate_def)
qed

text \<open>
  C9. \<^verbatim>\<open>startEditing(pairId)\<close> changes no gate's \<^verbatim>\<open>confirmed\<close> flag, for every argument and
  every flat gate list: the list of \<^verbatim>\<open>confirmed\<close> values is the same before and after, the
  gates differ at most in \<^verbatim>\<open>editing\<close>, no other field of the state changes, and the
  aggregator reports the same pairs with the same \<^verbatim>\<open>confirmed\<close> flags.
\<close>

theorem startEditing_keeps_confirmed:
  "map confirmed (timeGates (startEditing pid s)) = map confirmed (timeGates s)
   \<and> map (\<lambda>g. g\<lparr>editing := False\<rparr>) (timeGates (startEditing pid s)) =
       map (\<lambda>g. g\<lparr>editing := False\<rparr>) (timeGates s)
   \<and> startEditing pid s = s\<lparr>timeGates := timeGates (startEditing pid s)\<rparr>
   \<and> map pair_pairId (gatePairs (startEditing pid s)) = map pair_pairId (gatePairs s)
   \<and> map pair_confirmed (gatePairs (startEditing pid s)) = map pair_confirmed (gatePairs s)"
  by (simp add: gatePairs_startEditing) (simp add: startEditing_def comp_def edit_gate_eq)

theorem startEditing_keeps_confirmed_witness:
  "map confirmed (timeGates (startEditing 2
      (createState\<lparr>timeGates := [mk_gate 1 Start None True False, mk_gate 1 End None True False,
                                  mk_gate 2 Start None False False, mk_gate 2 End None True False]\<rparr>
        :: (nat, nat) app_state)))
   = [True, True, False, True]"
  using startEditing_keeps_confirmed [of 2
      "createState\<lparr>timeGates := [mk_gate 1 Start None True False, mk_gate 1 End None True False,
                                  mk_gate 2 Start None False False, mk_gate 2 End None True False]\<rparr>
        :: (nat, nat) app_state"]
  by (simp add: mk_gate_def)

text \<open>
  C10, as amended. Two calls of \<^verbatim>\<open>toggleTrack(id)\<close> in succession leave \<^verbatim>\<open>tracks\<close> and every
  field but \<^verbatim>\<open>selectedTrackIds\<close> unchanged, and they restore the set of selected ids exactly
  when the id does not occur twice in \<^verbatim>\<open>selectedTrackIds\<close> (so always when the selected ids
  are distinct). With the id listed twice, each call removes one occurrence and the id
  leaves the set.
\<close>

theorem toggleTrack_twice:
  "tracks (toggleTrack x s) = tracks s
   \<and> tracks (toggleTrack x (toggleTrack x s)) = tracks s
   \<and> toggleTrack x (toggleTrack x s) =
       s\<lparr>selectedTrackIds := selectedTrackIds (toggleTrack x (toggleTrack x s))\<rparr>
   \<and> (set (selectedTrackIds (toggleTrack x (toggleTrack x s))) = set (selectedTrackIds s)
        \<longleftrightarrow> count_list (selectedTrackIds s) x \<noteq> 2)"
  by (simp add: toggleTrack_eq toggle_ids_twice_set)

theorem toggleTrack_twice_witness:
  "set (selectedTrackIds (toggleTrack ''b''
        (toggleTrack ''b'' (createState\<lparr>selectedTrackIds := [''a'', ''b'', ''c'']\<rparr> :: (nat, nat) app_state))))
   = set [''a'', ''b'', ''c'']"
  using toggleTrack_twice [of "''b''" "createState\<lparr>selectedTrackIds := [''a'', ''b'', ''c'']\<rparr> :: (nat, nat) app_state"]
  by simp

theorem toggleTrack_twice_counterexample:
  "set (selectedTrackIds (toggleTrack ''a''
        (toggleTrack ''a'' (createState\<lparr>selectedTrackIds := [''a'', ''a'']\<rparr> :: (nat, nat) app_state))))
   \<noteq> set (selectedTrackIds (createState\<lparr>selectedTrackIds := [''a'', ''a'']\<rparr> :: (nat, nat) app_state))"
  by (simp add: toggleTrack_def splice1_def)

end
